theory Spec2Isabelle
  imports Complex_Main "HOL-Library.Multiset" "HOL-Library.Char_ord" "HOL-Library.List_Lexorder"
begin

section \<open>Strings and paths\<close>

text \<open>
  Strings are lists of 8-bit characters. An HTTP header value reaches the program decoded
  as Latin-1, one character per byte, and \<open>str.lower\<close> maps such a string character by
  character: \<open>A\<close>..\<open>Z\<close> and the accented capitals 0xC0..0xDE (but not the multiplication
  sign 0xD7) move up by 32, every other character stays.
\<close>

definition py_lower_char :: "char \<Rightarrow> char" where
  "py_lower_char c =
     (let n = (of_char c :: nat) in
      if (65 \<le> n \<and> n \<le> 90) \<or> (192 \<le> n \<and> n \<le> 222 \<and> n \<noteq> 215)
      then char_of (n + 32) else c)"

definition lower :: "string \<Rightarrow> string" where
  "lower s = map py_lower_char s"

definition startswith :: "string \<Rightarrow> string \<Rightarrow> bool" where
  "startswith s p = (take (length p) s = p)"

definition endswith :: "string \<Rightarrow> string \<Rightarrow> bool" where
  "endswith s suf = (length suf \<le> length s \<and> drop (length s - length suf) s = suf)"

text \<open>\<open>pat in s\<close> on Python strings: \<open>pat\<close> occurs in \<open>s\<close> as a contiguous block.\<close>

fun py_in :: "string \<Rightarrow> string \<Rightarrow> bool" where
  "py_in pat [] = (pat = [])"
| "py_in pat (c # cs) = (startswith (c # cs) pat \<or> py_in pat cs)"

text \<open>\<open>os.path.join\<close> of two components, as \<open>posixpath\<close> defines it.\<close>

definition path_join :: "string \<Rightarrow> string \<Rightarrow> string" where
  "path_join a b =
     (if startswith b ''/'' then b
      else if a = [] \<or> endswith a ''/'' then a @ b
      else a @ ''/'' @ b)"

section \<open>The polling daemon (main.py)\<close>

subsection \<open>Configuration\<close>

record camera =
  name :: string
  url :: string
  interval :: real

definition SAVE_DIR :: string where
  "SAVE_DIR = ''camera_images''"

definition CAMERAS :: "camera list" where
  "CAMERAS =
     [\<lparr>name = ''Front Door'', url = ''https://example.com/FrontDoor.JPG'', interval = 60\<rparr>,
      \<lparr>name = ''Pool'', url = ''https://example.com/Pool.jpg'', interval = 30\<rparr>]"

definition REQUEST_TIMEOUT :: real where
  "REQUEST_TIMEOUT = 15"

subsection \<open>Exceptions, responses, the wall clock\<close>

text \<open>
  The exception classes the handlers of \<open>fetch_and_save\<close> tell apart. In the HTTP library
  \<open>Timeout\<close>, \<open>ConnectionError\<close> and \<open>HTTPError\<close> are subclasses of \<open>RequestException\<close>,
  which is itself a subclass of \<open>OSError\<close>. An exception value is its class and its text.
\<close>

datatype exn_class =
  Timeout | ConnectionError | HTTPError | RequestException | OSError
  | UnboundLocalError | OtherException

type_synonym exn = "exn_class \<times> string"

fun is_Timeout :: "exn_class \<Rightarrow> bool" where
  "is_Timeout Timeout = True"
| "is_Timeout _ = False"

fun is_RequestException :: "exn_class \<Rightarrow> bool" where
  "is_RequestException Timeout = True"
| "is_RequestException ConnectionError = True"
| "is_RequestException HTTPError = True"
| "is_RequestException RequestException = True"
| "is_RequestException _ = False"

fun is_OSError :: "exn_class \<Rightarrow> bool" where
  "is_OSError OSError = True"
| "is_OSError c = is_RequestException c"

record response =
  status_code :: nat
  content_type :: "string option"
  content :: string

text \<open>
  \<open>response.raise_for_status()\<close> raises \<open>HTTPError\<close> for the status codes the source calls
  bad, 4xx and 5xx, and returns for every other status.
\<close>

definition raise_for_status :: "response \<Rightarrow> exn option" where
  "raise_for_status r =
     (if 400 \<le> status_code r \<and> status_code r < 600
      then Some (HTTPError, ''bad status'') else None)"

record datetime =
  year :: nat
  month :: nat
  day :: nat
  hour :: nat
  minute :: nat
  second :: nat

text \<open>The ranges of the fields of a \<open>datetime\<close> that the wall clock returns.\<close>

definition valid_datetime :: "datetime \<Rightarrow> bool" where
  "valid_datetime t =
     (1000 \<le> year t \<and> year t \<le> 9999 \<and> 1 \<le> month t \<and> month t \<le> 12
      \<and> 1 \<le> day t \<and> day t \<le> 31 \<and> hour t < 24 \<and> minute t < 60 \<and> second t < 60)"

definition digit :: "nat \<Rightarrow> char" where
  "digit d = ''0123456789'' ! (d mod 10)"

fun decimal :: "nat \<Rightarrow> string" where
  "decimal n = (if n < 10 then [digit n] else decimal (n div 10) @ [digit n])"

definition zfill :: "nat \<Rightarrow> string \<Rightarrow> string" where
  "zfill k s = replicate (k - length s) (CHR ''0'') @ s"

definition pad2 :: "nat \<Rightarrow> string" where
  "pad2 n = zfill 2 (decimal n)"

definition pad4 :: "nat \<Rightarrow> string" where
  "pad4 n = zfill 4 (decimal n)"

text \<open>
  \<open>strftime('%Y%m%d_%H%M%S')\<close>: the year zero-padded to four digits, the other fields to
  two, with an underscore between the date and the time.
\<close>

definition strftime :: "datetime \<Rightarrow> string" where
  "strftime t =
     pad4 (year t) @ pad2 (month t) @ pad2 (day t) @ ''_''
       @ pad2 (hour t) @ pad2 (minute t) @ pad2 (second t)"

subsection \<open>State and observable events\<close>

datatype level = DEBUG | INFO | WARNING | ERROR

datatype signal = SIGINT | SIGTERM

text \<open>
  One constructor per logging call of the source, carrying the values its format string
  interpolates. The messages of \<open>fetch_and_save\<close> that begin with \<open>[{name}]\<close> carry the
  camera name first.
\<close>

datatype message =
    StartingScript
  | MainSaveDirectory string
  | EnsuredDirectory string string
  | ErrorCreatingDirectories exn
  | DefaultingToJpg
  | StartingPolling string real
  | Fetching string string
  | SavedImage string string
  | TimeoutFetching string string
  | ErrorFetching string string exn
  | ErrorSaving string string exn
  | UnexpectedError string exn
  | Sleeping string real
  | PollingStopped string
  | SignalReceived signal
  | StartedThreads nat
  | ShutdownWaiting
  | AllFinished

text \<open>The camera a message is tagged with by its \<open>[{name}]\<close> prefix.\<close>

fun tagged_camera :: "message \<Rightarrow> string option" where
  "tagged_camera (Fetching n u) = Some n"
| "tagged_camera (SavedImage n p) = Some n"
| "tagged_camera (TimeoutFetching n u) = Some n"
| "tagged_camera (ErrorFetching n u e) = Some n"
| "tagged_camera (ErrorSaving n p e) = Some n"
| "tagged_camera (UnexpectedError n e) = Some n"
| "tagged_camera (Sleeping n d) = Some n"
| "tagged_camera _ = None"

text \<open>
  What a poll loop does to the outside world, in order: a log record, an HTTP GET (URL and
  timeout), a file opened for writing (created or truncated), a body written to it, and a
  wait on the shutdown event with the timeout asked for.
\<close>

datatype event =
    Log level message
  | Get string real
  | Open string
  | Write string string
  | Wait real

text \<open>
  The state a poll loop sees: the monotonic clock, the flag of \<open>shutdown_event\<close>, and the
  events so far.
\<close>

record state =
  monotonic :: real
  shutdown_event :: bool
  events :: "event list"

definition emit :: "event \<Rightarrow> state \<Rightarrow> state" where
  "emit e s = s\<lparr>events := events s @ [e]\<rparr>"

definition logging :: "level \<Rightarrow> message \<Rightarrow> state \<Rightarrow> state" where
  "logging l m s = emit (Log l m) s"

text \<open>\<open>threading.Event()\<close> starts with its flag false.\<close>

definition initial_state :: "real \<Rightarrow> state" where
  "initial_state t = \<lparr>monotonic = t, shutdown_event = False, events = []\<rparr>"

definition signal_handler :: "signal \<Rightarrow> state \<Rightarrow> state" where
  "signal_handler sig s = (logging WARNING (SignalReceived sig) s)\<lparr>shutdown_event := True\<rparr>"

subsection \<open>One poll cycle\<close>

text \<open>
  What the environment does during one cycle: the result of \<open>requests.get\<close> (an exception or
  a response), the wall clock read for the file name, whether \<open>open\<close> and \<open>write\<close> raise,
  the monotonic time that passes between the two clock readings of the iteration, a
  termination signal handled while the \<open>try\<close> statement runs, and a termination signal
  handled the given time after the wait has begun. The clock readings and the interval are
  floating-point numbers: the sum and the difference the loop computes are the exact
  results rounded to the nearest representable number, and \<open>rounding\<close> is that rounding
  (it leaves a representable number as it is).
\<close>

record cycle =
  get_result :: "exn + response"
  now :: datetime
  open_result :: "exn option"
  write_result :: "exn option"
  busy :: real
  signal_in_fetch :: "signal option"
  signal_in_wait :: "(signal \<times> real) option"
  rounding :: "real \<Rightarrow> real"

definition get_file_extension :: "response \<Rightarrow> state \<Rightarrow> string \<times> state" where
  "get_file_extension r s =
     (let dflt = (''.jpg'', logging WARNING DefaultingToJpg s) in
      case content_type r of
        None \<Rightarrow> dflt
      | Some ct \<Rightarrow>
          if ct = [] then dflt
          else if py_in ''image/jpeg'' (lower ct) then (''.jpg'', s)
          else if py_in ''image/png'' (lower ct) then (''.png'', s)
          else if py_in ''image/gif'' (lower ct) then (''.gif'', s)
          else if py_in ''image/bmp'' (lower ct) then (''.bmp'', s)
          else dflt)"

text \<open>
  The body of the \<open>try\<close> statement. It returns the exception that leaves it, if any, the
  local variable \<open>filepath\<close> (\<open>None\<close> while it is unbound) and the state.
\<close>

definition try_body ::
  "camera \<Rightarrow> cycle \<Rightarrow> string option \<Rightarrow> state \<Rightarrow> exn option \<times> string option \<times> state" where
  "try_body cam c filepath s =
     (let cam_dir = path_join SAVE_DIR (name cam);
          s1 = logging DEBUG (Fetching (name cam) (url cam)) s;
          s2 = emit (Get (url cam) REQUEST_TIMEOUT) s1 in
      case get_result c of
        Inl e \<Rightarrow> (Some e, filepath, s2)
      | Inr r \<Rightarrow>
          (case raise_for_status r of
             Some e \<Rightarrow> (Some e, filepath, s2)
           | None \<Rightarrow>
               (let timestamp = strftime (now c);
                    (extension, s3) = get_file_extension r s2;
                    filename = name cam @ ''_'' @ timestamp @ extension;
                    fp = path_join cam_dir filename in
                case open_result c of
                  Some e \<Rightarrow> (Some e, Some fp, s3)
                | None \<Rightarrow>
                    (let s4 = emit (Open fp) s3 in
                     case write_result c of
                       Some e \<Rightarrow> (Some e, Some fp, s4)
                     | None \<Rightarrow>
                         (None, Some fp,
                          logging INFO (SavedImage (name cam) fp)
                            (emit (Write fp (content r)) s4))))))"

text \<open>
  The \<open>except\<close> clauses, in the source's order. The clause for \<open>OSError\<close> formats
  \<open>filepath\<close>: while that variable is unbound the clause itself raises \<open>UnboundLocalError\<close>,
  which no clause of the same \<open>try\<close> statement catches.
\<close>

definition handlers :: "camera \<Rightarrow> string option \<Rightarrow> exn \<Rightarrow> state \<Rightarrow> exn + state" where
  "handlers cam filepath e s =
     (if is_Timeout (fst e) then
        Inr (logging ERROR (TimeoutFetching (name cam) (url cam)) s)
      else if is_RequestException (fst e) then
        Inr (logging ERROR (ErrorFetching (name cam) (url cam) e) s)
      else if is_OSError (fst e) then
        (case filepath of
           None \<Rightarrow> Inl (UnboundLocalError, ''filepath'')
         | Some fp \<Rightarrow> Inr (logging ERROR (ErrorSaving (name cam) fp e) s))
      else Inr (logging ERROR (UnexpectedError (name cam) e) s))"

definition try_except ::
  "camera \<Rightarrow> cycle \<Rightarrow> string option \<Rightarrow> state \<Rightarrow> exn option \<times> string option \<times> state" where
  "try_except cam c filepath s =
     (case try_body cam c filepath s of
        (None, fp, s1) \<Rightarrow> (None, fp, s1)
      | (Some e, fp, s1) \<Rightarrow>
          (case handlers cam fp e s1 of
             Inl e' \<Rightarrow> (Some e', fp, s1)
           | Inr s2 \<Rightarrow> (None, fp, s2)))"

text \<open>
  While the thread is busy with the \<open>try\<close> statement the clock advances and a signal may be
  handled (by the main thread, which sets the flag).
\<close>

definition elapse :: "cycle \<Rightarrow> real \<Rightarrow> state \<Rightarrow> state" where
  "elapse c t0 s =
     (let s1 = s\<lparr>monotonic := t0 + busy c\<rparr> in
      case signal_in_fetch c of None \<Rightarrow> s1 | Some sig \<Rightarrow> signal_handler sig s1)"

text \<open>
  \<open>shutdown_event.wait(timeout)\<close>: returns at once when the flag is set; returns when a
  signal sets the flag before the timeout; returns after the timeout otherwise.
\<close>

definition event_wait :: "real \<Rightarrow> (signal \<times> real) option \<Rightarrow> state \<Rightarrow> state" where
  "event_wait timeout sg s =
     (let s1 = emit (Wait timeout) s in
      if shutdown_event s1 then s1
      else
        (case sg of
           None \<Rightarrow> s1\<lparr>monotonic := monotonic s1 + timeout\<rparr>
         | Some (sig, d) \<Rightarrow>
             if 0 \<le> d \<and> d < timeout
             then signal_handler sig (s1\<lparr>monotonic := monotonic s1 + d\<rparr>)
             else s1\<lparr>monotonic := monotonic s1 + timeout\<rparr>))"

text \<open>\<open>max(0, next_fetch_time - time.monotonic())\<close>, the difference rounded.\<close>

definition sleep_duration :: "(real \<Rightarrow> real) \<Rightarrow> real \<Rightarrow> state \<Rightarrow> real" where
  "sleep_duration fl next_fetch_time s = max 0 (fl (next_fetch_time - monotonic s))"

text \<open>The body of the \<open>while\<close> loop: \<open>Inl\<close> when an exception leaves it.\<close>

definition iteration ::
  "camera \<Rightarrow> cycle \<Rightarrow> string option \<Rightarrow> state \<Rightarrow> (exn \<times> state) + (string option \<times> state)" where
  "iteration cam c filepath s =
     (let next_fetch_time = rounding c (monotonic s + interval cam) in
      case try_except cam c filepath s of
        (Some e, fp, s1) \<Rightarrow> Inl (e, elapse c (monotonic s) s1)
      | (None, fp, s1) \<Rightarrow>
          (let s2 = elapse c (monotonic s) s1;
               d = sleep_duration (rounding c) next_fetch_time s2;
               s3 = logging DEBUG (Sleeping (name cam) d) s2 in
           Inr (fp, event_wait d (signal_in_wait c) s3)))"

subsection \<open>The poll loop\<close>

text \<open>
  The loop runs against a finite schedule of cycles. It ends when it finds the flag set
  (\<open>Exited\<close>) or when an exception leaves it (\<open>Crashed\<close>); \<open>Running\<close> says that the schedule
  is used up and the loop has not ended.
\<close>

datatype outcome = Exited | Crashed exn | Running

fun poll :: "camera \<Rightarrow> cycle list \<Rightarrow> string option \<Rightarrow> state \<Rightarrow> outcome \<times> state" where
  "poll cam [] filepath s =
     (if shutdown_event s then (Exited, logging INFO (PollingStopped (name cam)) s)
      else (Running, s))"
| "poll cam (c # cs) filepath s =
     (if shutdown_event s then (Exited, logging INFO (PollingStopped (name cam)) s)
      else
        (case iteration cam c filepath s of
           Inl (e, s1) \<Rightarrow> (Crashed e, s1)
         | Inr (fp, s1) \<Rightarrow> poll cam cs fp s1))"

definition fetch_and_save :: "camera \<Rightarrow> cycle list \<Rightarrow> state \<Rightarrow> outcome \<times> state" where
  "fetch_and_save cam cs s =
     poll cam cs None (logging INFO (StartingPolling (name cam) (interval cam)) s)"

text \<open>Observations on a trace of events: the GETs made, the files written and opened, the waits
  asked for, the errors logged.\<close>

fun is_Get :: "event \<Rightarrow> bool" where
  "is_Get (Get u t) = True"
| "is_Get _ = False"

definition fetches :: "event list \<Rightarrow> nat" where
  "fetches es = length (filter is_Get es)"

definition files_written :: "event list \<Rightarrow> (string \<times> string) list" where
  "files_written es = [(p, b). Write p b \<leftarrow> es]"

definition files_opened :: "event list \<Rightarrow> string list" where
  "files_opened es = [p. Open p \<leftarrow> es]"

definition waits :: "event list \<Rightarrow> real list" where
  "waits es = [d. Wait d \<leftarrow> es]"

definition errors_logged :: "event list \<Rightarrow> message list" where
  "errors_logged es = [m. Log ERROR m \<leftarrow> es]"

text \<open>
  Whether the declared content type holds one of the four image types the source knows.
\<close>

definition known_type :: "response \<Rightarrow> bool" where
  "known_type r =
     (case content_type r of
        None \<Rightarrow> False
      | Some ct \<Rightarrow>
          ct \<noteq> [] \<and>
          (py_in ''image/jpeg'' (lower ct) \<or> py_in ''image/png'' (lower ct)
           \<or> py_in ''image/gif'' (lower ct) \<or> py_in ''image/bmp'' (lower ct)))"

text \<open>The extension \<open>get_file_extension\<close> returns for a response, whatever the state.\<close>

definition extension_of :: "response \<Rightarrow> string" where
  "extension_of r = fst (get_file_extension r (initial_state 0))"

text \<open>
  The path \<open>fetch_and_save\<close> builds for the image of a camera, from the wall clock and the
  extension: \<open>os.path.join(cam_dir, f"{name}_{timestamp}{extension}")\<close> with
  \<open>cam_dir = os.path.join(SAVE_DIR, name)\<close>.
\<close>

definition image_path :: "camera \<Rightarrow> datetime \<Rightarrow> string \<Rightarrow> string" where
  "image_path cam t extension =
     path_join (path_join SAVE_DIR (name cam)) (name cam @ ''_'' @ strftime t @ extension)"

definition is_digit :: "char \<Rightarrow> bool" where
  "is_digit ch = (ch \<in> set ''0123456789'')"

text \<open>
  A case-insensitive substring match, in the specification's words: some block of the
  string equals the pattern up to the case of its letters. A response declares a type
  when its content-type header is present and matches it so.
\<close>

definition ci_substring :: "string \<Rightarrow> string \<Rightarrow> bool" where
  "ci_substring pat s = (\<exists>pre block suf. s = pre @ block @ suf \<and> lower block = lower pat)"

definition declares :: "response \<Rightarrow> string \<Rightarrow> bool" where
  "declares r pat = (case content_type r of None \<Rightarrow> False | Some ct \<Rightarrow> ci_substring pat ct)"

subsection \<open>Directory provisioning and the supervisor\<close>

text \<open>
  The file system as \<open>os.makedirs(path, exist_ok=True)\<close> sees it: the directories that
  exist, and the paths at which it cannot create one (no permission, an invalid path, a
  regular file in the way), where it raises \<open>OSError\<close>.
\<close>

record filesystem =
  dirs :: "string list"
  blocked :: "string list"

definition makedirs :: "string \<Rightarrow> filesystem \<Rightarrow> exn + filesystem" where
  "makedirs path fs =
     (if path \<in> set (dirs fs) then Inr fs
      else if path \<in> set (blocked fs) then Inl (OSError, path)
      else Inr (fs\<lparr>dirs := dirs fs @ [path]\<rparr>))"

text \<open>A path at which \<open>makedirs\<close> succeeds: the directory exists or can be created.\<close>

definition creatable :: "filesystem \<Rightarrow> string \<Rightarrow> bool" where
  "creatable fs p = (p \<in> set (dirs fs) \<or> p \<notin> set (blocked fs))"

text \<open>The directories \<open>setup_directories\<close> asks for: the root, then one per camera.\<close>

definition needed_directories :: "camera list \<Rightarrow> string list" where
  "needed_directories cams = SAVE_DIR # map (\<lambda>cam. path_join SAVE_DIR (name cam)) cams"

text \<open>The \<open>for\<close> loop of \<open>setup_directories\<close>; it stops at the first exception.\<close>

fun camera_directories ::
  "camera list \<Rightarrow> filesystem \<Rightarrow> state \<Rightarrow> exn option \<times> filesystem \<times> state" where
  "camera_directories [] fs s = (None, fs, s)"
| "camera_directories (cam # cams) fs s =
     (let cam_dir = path_join SAVE_DIR (name cam) in
      case makedirs cam_dir fs of
        Inl e \<Rightarrow> (Some e, fs, s)
      | Inr fs1 \<Rightarrow>
          camera_directories cams fs1 (logging INFO (EnsuredDirectory (name cam) cam_dir) s))"

text \<open>
  \<open>setup_directories\<close> over a registry. The first component is the status of
  \<open>sys.exit\<close> when the function leaves through it, \<open>None\<close> when it returns.
\<close>

definition setup_directories ::
  "camera list \<Rightarrow> filesystem \<Rightarrow> state \<Rightarrow> nat option \<times> filesystem \<times> state" where
  "setup_directories cams fs s =
     (case makedirs SAVE_DIR fs of
        Inl e \<Rightarrow> (Some 1, fs, logging ERROR (ErrorCreatingDirectories e) s)
      | Inr fs1 \<Rightarrow>
          (case camera_directories cams fs1 (logging INFO (MainSaveDirectory SAVE_DIR) s) of
             (Some e, fs2, s2) \<Rightarrow> (Some 1, fs2, logging ERROR (ErrorCreatingDirectories e) s2)
           | (None, fs2, s2) \<Rightarrow> (None, fs2, s2)))"

text \<open>
  The main thread's loop \<open>while not shutdown_event.is_set(): time.sleep(1)\<close>, against a
  schedule that says for each sleep whether a termination signal is handled during it.
  \<open>None\<close>: the schedule is used up and the flag is still unset.
\<close>

fun main_wait :: "signal option list \<Rightarrow> state \<Rightarrow> state option" where
  "main_wait [] s = (if shutdown_event s then Some s else None)"
| "main_wait (sg # sgs) s =
     (if shutdown_event s then Some s
      else
        (let s1 = s\<lparr>monotonic := monotonic s + 1\<rparr> in
         main_wait sgs (case sg of None \<Rightarrow> s1 | Some sig \<Rightarrow> signal_handler sig s1)))"

text \<open>
  A run of the process: its exit status (\<open>None\<close> while it has not exited), the threads it
  started, each with the camera it polls and the run of its loop, the file system and the
  main thread's state.
\<close>

record run =
  exit_status :: "nat option"
  threads :: "(camera \<times> outcome \<times> state) list"
  disk :: filesystem
  main_state :: state

text \<open>\<open>thread.join()\<close> returns once the thread's function has returned or raised.\<close>

definition joined :: "camera \<times> outcome \<times> state \<Rightarrow> bool" where
  "joined th = (fst (snd th) \<noteq> Running)"

text \<open>
  The main block over a registry. Thread \<open>i\<close> runs its loop against its own schedule
  \<open>sched i\<close>, in which the shared flag is seen set when that schedule says so.
\<close>

definition main ::
  "camera list \<Rightarrow> filesystem \<Rightarrow> (nat \<Rightarrow> cycle list) \<Rightarrow> signal option list \<Rightarrow> real \<Rightarrow> run" where
  "main cams fs sched sleeps t0 =
     (let s0 = logging INFO StartingScript (initial_state t0) in
      case setup_directories cams fs s0 of
        (Some status, fs1, s1) \<Rightarrow>
          \<lparr>exit_status = Some status, threads = [], disk = fs1, main_state = s1\<rparr>
      | (None, fs1, s1) \<Rightarrow>
          (let ths = map (\<lambda>(i, cam). (cam, fetch_and_save cam (sched i) s1)) (enumerate 0 cams);
               s2 = logging INFO (StartedThreads (length ths)) s1 in
           case main_wait sleeps s2 of
             None \<Rightarrow> \<lparr>exit_status = None, threads = ths, disk = fs1, main_state = s2\<rparr>
           | Some s3 \<Rightarrow>
               (let s4 = logging INFO ShutdownWaiting s3 in
                if list_all joined ths
                then \<lparr>exit_status = Some 0, threads = ths, disk = fs1,
                       main_state = logging INFO AllFinished s4\<rparr>
                else \<lparr>exit_status = None, threads = ths, disk = fs1, main_state = s4\<rparr>)))"

section \<open>The timelapse encoder (create-timelapse.py)\<close>

record frame =
  height :: nat
  width :: nat
  pixels :: string

text \<open>\<open>cv2.imread\<close> returns an image, returns \<open>None\<close>, or raises.\<close>

datatype imread_result = Image frame | Unreadable | ImreadRaises string

text \<open>The writer after \<open>cv2.VideoWriter(...)\<close>: opened, not opened, or the call raised.\<close>

datatype writer_result = Opened | NotOpened | WriterRaises string

text \<open>What the script asks of the operating system and of the codec library.\<close>

record os_env =
  isdir :: "string \<Rightarrow> bool"
  listdir :: "string \<Rightarrow> string list"
  isfile :: "string \<Rightarrow> bool"
  imread :: "string \<Rightarrow> imread_result"
  video_writer :: "string \<Rightarrow> int \<Rightarrow> nat \<times> nat \<Rightarrow> writer_result"

text \<open>One constructor per \<open>print\<close> call of the source.\<close>

datatype line =
    TimelapseStarted
  | ImageFolder string
  | OutputFile string
  | Fps int
  | ImageExtension string
  | FolderNotFound string
  | NoImagesFound string string
  | FoundImages nat
  | CouldNotReadFirst string
  | CheckValidImage
  | VideoDimensions nat nat
  | ErrorReadingFirst string
  | CouldNotOpenWriter
  | CheckCodec
  | ErrorInitializingWriter string
  | WritingFrames
  | WarningSkipping string
  | Progress nat nat
  | ErrorProcessing string string
  | TimelapseFinished
  | VideoSavedAs string

text \<open>
  What the encoder does, in order: a printed line, the construction of the video writer
  (output path, frame rate, width and height), a frame handed to it, its release, and an
  exception that nothing catches.
\<close>

datatype action =
    Print line
  | NewVideoWriter string int "nat \<times> nat"
  | WriteFrame frame
  | Release
  | Uncaught string

definition select_images :: "os_env \<Rightarrow> string \<Rightarrow> string \<Rightarrow> string list" where
  "select_images env image_folder image_ext =
     [f \<leftarrow> listdir env image_folder.
        isfile env (path_join image_folder f) \<and> endswith (lower f) (lower image_ext)]"

text \<open>The loop over \<open>enumerate(sorted_image_files)\<close>.\<close>

fun write_frames :: "os_env \<Rightarrow> string \<Rightarrow> nat \<Rightarrow> nat \<Rightarrow> string list \<Rightarrow> action list" where
  "write_frames env image_folder total_frames i [] = []"
| "write_frames env image_folder total_frames i (filename # rest) =
     (case imread env (path_join image_folder filename) of
        Unreadable \<Rightarrow> [Print (WarningSkipping filename)]
      | ImreadRaises e \<Rightarrow> [Print (ErrorProcessing filename e)]
      | Image fr \<Rightarrow> [WriteFrame fr, Print (Progress (i + 1) total_frames)])
     @ write_frames env image_folder total_frames (i + 1) rest"

text \<open>
  \<open>create_timelapse\<close>. The natural sort is the \<open>natsort\<close> library's and is a parameter.
\<close>

definition create_timelapse ::
  "(string list \<Rightarrow> string list) \<Rightarrow> os_env \<Rightarrow> string \<Rightarrow> string \<Rightarrow> int \<Rightarrow> string \<Rightarrow> action list" where
  "create_timelapse natsorted env image_folder output_file fps image_ext =
     (let banner =
            [Print TimelapseStarted, Print (ImageFolder image_folder),
             Print (OutputFile output_file), Print (Fps fps), Print (ImageExtension image_ext)] in
      if \<not> isdir env image_folder then banner @ [Print (FolderNotFound image_folder)]
      else
        (let image_files = select_images env image_folder image_ext in
         if image_files = [] then banner @ [Print (NoImagesFound image_ext image_folder)]
         else
           (let out1 = banner @ [Print (FoundImages (length image_files))];
                sorted_image_files = natsorted image_files in
            case sorted_image_files of
              [] \<Rightarrow> out1 @ [Uncaught ''IndexError'']
            | first # others \<Rightarrow>
                (let first_image_path = path_join image_folder first in
                 case imread env first_image_path of
                   Unreadable \<Rightarrow>
                     out1 @ [Print (CouldNotReadFirst first_image_path), Print CheckValidImage]
                 | ImreadRaises e \<Rightarrow> out1 @ [Print (ErrorReadingFirst e)]
                 | Image fr \<Rightarrow>
                     (let frame_size = (width fr, height fr);
                          out2 = out1 @ [Print (VideoDimensions (width fr) (height fr)),
                                         NewVideoWriter output_file fps frame_size] in
                      case video_writer env output_file fps frame_size of
                        WriterRaises e \<Rightarrow> out2 @ [Print (ErrorInitializingWriter e)]
                      | NotOpened \<Rightarrow> out2 @ [Print CouldNotOpenWriter, Print CheckCodec]
                      | Opened \<Rightarrow>
                          out2 @ [Print WritingFrames]
                            @ write_frames env image_folder (length sorted_image_files) 0
                                sorted_image_files
                            @ [Release, Print TimelapseFinished,
                               Print (VideoSavedAs output_file)])))))"

text \<open>Observations on the encoder's actions.\<close>

fun is_NewVideoWriter :: "action \<Rightarrow> bool" where
  "is_NewVideoWriter (NewVideoWriter out fps sz) = True"
| "is_NewVideoWriter _ = False"

definition encoding_started :: "action list \<Rightarrow> bool" where
  "encoding_started acts = list_ex is_NewVideoWriter acts"

text \<open>The frames handed to \<open>out.write\<close>, in order.\<close>

definition frames_written :: "action list \<Rightarrow> frame list" where
  "frames_written acts = [fr. WriteFrame fr \<leftarrow> acts]"



definition video_produced :: "action list \<Rightarrow> bool" where
  "video_produced acts = (Release \<in> set acts)"


section \<open>Sample inputs\<close>

definition pool :: camera where
  "pool = \<lparr>name = ''Pool'', url = ''https://example.com/Pool.jpg'', interval = 30\<rparr>"

definition stamp :: datetime where
  "stamp = \<lparr>year = 2024, month = 1, day = 2, hour = 3, minute = 4, second = 5\<rparr>"

definition reply :: "nat \<Rightarrow> string option \<Rightarrow> response" where
  "reply st ct = \<lparr>status_code = st, content_type = ct, content = ''bytes''\<rparr>"

definition twins :: "camera list" where
  "twins = [pool, pool\<lparr>url := ''https://example.com/Pool2.jpg''\<rparr>]"



text \<open>
  A cycle with no signal, in which \<open>open\<close> and \<open>write\<close> succeed and the sum and the
  difference of the loop are representable, so that nothing is rounded.
\<close>

definition calm :: "exn + response \<Rightarrow> real \<Rightarrow> cycle" where
  "calm g b =
     \<lparr>get_result = g, now = stamp, open_result = None, write_result = None, busy = b,
      signal_in_fetch = None, signal_in_wait = None, rounding = (\<lambda>x. x)\<rparr>"

section \<open>Basic facts about states and traces\<close>

lemma emit_simps [simp]:
  "events (emit e s) = events s @ [e]"
  "shutdown_event (emit e s) = shutdown_event s"
  "monotonic (emit e s) = monotonic s"
  by (simp_all add: emit_def)

lemma logging_simps [simp]:
  "events (logging l m s) = events s @ [Log l m]"
  "shutdown_event (logging l m s) = shutdown_event s"
  "monotonic (logging l m s) = monotonic s"
  by (simp_all add: logging_def)

lemma signal_handler_simps [simp]:
  "events (signal_handler sig s) = events s @ [Log WARNING (SignalReceived sig)]"
  "shutdown_event (signal_handler sig s) = True"
  "monotonic (signal_handler sig s) = monotonic s"
  by (simp_all add: signal_handler_def)

lemma obs_append [simp]:
  "waits (xs @ ys) = waits xs @ waits ys"
  "fetches (xs @ ys) = fetches xs + fetches ys"
  "files_written (xs @ ys) = files_written xs @ files_written ys"
  "files_opened (xs @ ys) = files_opened xs @ files_opened ys"
  "errors_logged (xs @ ys) = errors_logged xs @ errors_logged ys"
  by (simp_all add: waits_def fetches_def files_written_def files_opened_def errors_logged_def)

lemma obs_Nil [simp]:
  "waits [] = []" "fetches [] = 0" "files_written [] = []" "files_opened [] = []"
  "errors_logged [] = []"
  by (simp_all add: waits_def fetches_def files_written_def files_opened_def errors_logged_def)

lemma obs_Log [simp]:
  "waits (Log l m # es) = waits es" "fetches (Log l m # es) = fetches es"
  "files_written (Log l m # es) = files_written es"
  "files_opened (Log l m # es) = files_opened es"
  "errors_logged (Log l m # es) = (if l = ERROR then m # errors_logged es else errors_logged es)"
  by (cases l; simp add: waits_def fetches_def files_written_def files_opened_def errors_logged_def)+

lemma obs_Get [simp]:
  "waits (Get u t # es) = waits es" "fetches (Get u t # es) = Suc (fetches es)"
  "files_written (Get u t # es) = files_written es"
  "files_opened (Get u t # es) = files_opened es" "errors_logged (Get u t # es) = errors_logged es"
  by (simp_all add: waits_def fetches_def files_written_def files_opened_def errors_logged_def)

lemma obs_Open [simp]:
  "waits (Open p # es) = waits es" "fetches (Open p # es) = fetches es"
  "files_written (Open p # es) = files_written es"
  "files_opened (Open p # es) = p # files_opened es" "errors_logged (Open p # es) = errors_logged es"
  by (simp_all add: waits_def fetches_def files_written_def files_opened_def errors_logged_def)

lemma obs_Write [simp]:
  "waits (Write p b # es) = waits es" "fetches (Write p b # es) = fetches es"
  "files_written (Write p b # es) = (p, b) # files_written es"
  "files_opened (Write p b # es) = files_opened es" "errors_logged (Write p b # es) = errors_logged es"
  by (simp_all add: waits_def fetches_def files_written_def files_opened_def errors_logged_def)

lemma obs_Wait [simp]:
  "waits (Wait d # es) = d # waits es" "fetches (Wait d # es) = fetches es"
  "files_written (Wait d # es) = files_written es"
  "files_opened (Wait d # es) = files_opened es" "errors_logged (Wait d # es) = errors_logged es"
  by (simp_all add: waits_def fetches_def files_written_def files_opened_def errors_logged_def)

lemma elapse_simps [simp]:
  "monotonic (elapse c t0 s) = t0 + busy c"
  "events (elapse c t0 s) =
     events s @ (case signal_in_fetch c of None \<Rightarrow> [] | Some sig \<Rightarrow> [Log WARNING (SignalReceived sig)])"
  "shutdown_event (elapse c t0 s) = (shutdown_event s \<or> signal_in_fetch c \<noteq> None)"
  by (simp_all add: elapse_def Let_def split: option.splits)


lemma get_file_extension_state:
  "snd (get_file_extension r s) = (if known_type r then s else logging WARNING DefaultingToJpg s)"
  by (simp add: get_file_extension_def known_type_def Let_def split: option.splits)


lemma try_body_flag [simp]:
  "shutdown_event (snd (snd (try_body cam c fp s))) = shutdown_event s"
  unfolding try_body_def Let_def case_prod_beta
  by (simp add: get_file_extension_state split: sum.split option.split)

lemma try_body_waits [simp]:
  "waits (events (snd (snd (try_body cam c fp s)))) = waits (events s)"
  unfolding try_body_def Let_def case_prod_beta
  by (simp add: get_file_extension_state split: sum.split option.split)


lemma handlers_state:
  "handlers cam fp e s = Inr s' \<Longrightarrow>
     shutdown_event s' = shutdown_event s \<and> monotonic s' = monotonic s
     \<and> (\<exists>m. events s' = events s @ [Log ERROR m] \<and> tagged_camera m = Some (name cam))"
  by (auto simp: handlers_def split: if_splits option.splits)

lemma try_except_flag [simp]:
  "shutdown_event (snd (snd (try_except cam c fp s))) = shutdown_event s"
proof (cases "try_body cam c fp s")
  case (fields r fp1 s1)
  have f: "shutdown_event s1 = shutdown_event s"
    using try_body_flag [of cam c fp s] fields by simp
  show ?thesis
    using f fields by (auto simp: try_except_def split: option.splits sum.splits dest: handlers_state)
qed

lemma try_except_waits [simp]:
  "waits (events (snd (snd (try_except cam c fp s)))) = waits (events s)"
proof (cases "try_body cam c fp s")
  case (fields r fp1 s1)
  have f: "waits (events s1) = waits (events s)"
    using try_body_waits [of cam c fp s] fields by simp
  show ?thesis
    using f fields by (auto simp: try_except_def split: option.splits sum.splits dest: handlers_state)
qed

lemma event_wait_waits [simp]:
  "waits (events (event_wait d sg s)) = waits (events s) @ [d]"
  by (simp add: event_wait_def Let_def split: option.splits prod.splits)

section \<open>One fetch attempt\<close>

lemma get_file_extension_fst:
  "fst (get_file_extension r s) = extension_of r"
  by (simp add: extension_of_def get_file_extension_def Let_def split: option.splits)

lemma try_body_raised:
  "fst (try_body cam c fp s) =
     (case get_result c of
        Inl e \<Rightarrow> Some e
      | Inr r \<Rightarrow>
          (case raise_for_status r of
             Some e \<Rightarrow> Some e
           | None \<Rightarrow> (case open_result c of Some e \<Rightarrow> Some e | None \<Rightarrow> write_result c)))"
  unfolding try_body_def Let_def case_prod_beta
  by (simp split: sum.split option.split)

lemma try_body_filepath:
  "fst (snd (try_body cam c fp s)) =
     (case get_result c of
        Inl e \<Rightarrow> fp
      | Inr r \<Rightarrow>
          (case raise_for_status r of
             Some e \<Rightarrow> fp
           | None \<Rightarrow> Some (image_path cam (now c) (extension_of r))))"
  unfolding try_body_def Let_def case_prod_beta image_path_def
  by (simp add: get_file_extension_fst split: sum.split option.split)

lemma try_body_fetches [simp]:
  "fetches (events (snd (snd (try_body cam c fp s)))) = Suc (fetches (events s))"
  unfolding try_body_def Let_def case_prod_beta
  by (simp add: get_file_extension_state split: sum.split option.split)

lemma try_body_errors [simp]:
  "errors_logged (events (snd (snd (try_body cam c fp s)))) = errors_logged (events s)"
  unfolding try_body_def Let_def case_prod_beta
  by (simp add: get_file_extension_state split: sum.split option.split)

lemma try_body_clock [simp]:
  "monotonic (snd (snd (try_body cam c fp s))) = monotonic s"
  unfolding try_body_def Let_def case_prod_beta
  by (simp add: get_file_extension_state split: sum.split option.split)

lemma try_body_written:
  "files_written (events (snd (snd (try_body cam c fp s)))) =
     files_written (events s) @
       (case get_result c of
          Inl e \<Rightarrow> []
        | Inr r \<Rightarrow>
            if raise_for_status r = None \<and> open_result c = None \<and> write_result c = None
            then [(image_path cam (now c) (extension_of r), content r)]
            else [])"
  unfolding try_body_def Let_def case_prod_beta image_path_def
  by (simp add: get_file_extension_state get_file_extension_fst split: sum.split option.split)

lemma try_body_opened:
  "files_opened (events (snd (snd (try_body cam c fp s)))) =
     files_opened (events s) @
       (case get_result c of
          Inl e \<Rightarrow> []
        | Inr r \<Rightarrow>
            if raise_for_status r = None \<and> open_result c = None
            then [image_path cam (now c) (extension_of r)]
            else [])"
  unfolding try_body_def Let_def case_prod_beta image_path_def
  by (simp add: get_file_extension_state get_file_extension_fst split: sum.split option.split)


lemma try_except_unfold:
  "try_except cam c fp s =
     (case fst (try_body cam c fp s) of
        None \<Rightarrow> try_body cam c fp s
      | Some e \<Rightarrow>
          (case handlers cam (fst (snd (try_body cam c fp s))) e (snd (snd (try_body cam c fp s))) of
             Inl e' \<Rightarrow> (Some e', snd (try_body cam c fp s))
           | Inr s2 \<Rightarrow> (None, fst (snd (try_body cam c fp s)), s2)))"
  by (simp add: try_except_def split: prod.splits option.splits sum.splits)

lemma try_except_written [simp]:
  "files_written (events (snd (snd (try_except cam c fp s)))) =
     files_written (events (snd (snd (try_body cam c fp s))))"
  by (auto simp: try_except_unfold split: option.splits sum.splits dest: handlers_state)

lemma try_except_opened [simp]:
  "files_opened (events (snd (snd (try_except cam c fp s)))) =
     files_opened (events (snd (snd (try_body cam c fp s))))"
  by (auto simp: try_except_unfold split: option.splits sum.splits dest: handlers_state)

lemma try_except_fetches [simp]:
  "fetches (events (snd (snd (try_except cam c fp s)))) = Suc (fetches (events s))"
  by (auto simp: try_except_unfold split: option.splits sum.splits dest: handlers_state)

lemma try_except_clock [simp]:
  "monotonic (snd (snd (try_except cam c fp s))) = monotonic s"
  by (auto simp: try_except_unfold split: option.splits sum.splits dest: handlers_state)

lemma raise_for_status_None:
  "raise_for_status r = None \<longleftrightarrow> \<not> (400 \<le> status_code r \<and> status_code r < 600)"
  by (simp add: raise_for_status_def)

lemma try_except_bad_status:
  assumes "get_result c = Inr r" "400 \<le> status_code r" "status_code r < 600"
  shows "try_except cam c fp s =
           (None, fp,
            logging ERROR (ErrorFetching (name cam) (url cam) (HTTPError, ''bad status''))
              (emit (Get (url cam) REQUEST_TIMEOUT)
                 (logging DEBUG (Fetching (name cam) (url cam)) s)))"
  using assms
  by (simp add: try_except_def try_body_def Let_def raise_for_status_def handlers_def)

text \<open>
  Claim C2, as amended. A fetch attempt writes exactly one file when \<open>requests.get\<close>
  returns a response whose status is not 4xx or 5xx and both \<open>open\<close> and \<open>write\<close>
  succeed, and that file is the response body at the camera's image path; in every other
  case it writes no file. For a 4xx or 5xx response (HTTP 500, say) no file is opened or
  written, nothing is raised further, and the failure is logged as an error.
\<close>

theorem fetch_writes_one_file_or_none:
  "try_except cam c filepath s = (x, fp', s') \<Longrightarrow>
     files_written (events s') =
       files_written (events s) @
         (case get_result c of
            Inl e \<Rightarrow> []
          | Inr r \<Rightarrow>
              if \<not> (400 \<le> status_code r \<and> status_code r < 600)
                 \<and> open_result c = None \<and> write_result c = None
              then [(image_path cam (now c) (extension_of r), content r)]
              else [])
     \<and> (\<forall>r. get_result c = Inr r \<and> 400 \<le> status_code r \<and> status_code r < 600 \<longrightarrow>
           x = None
           \<and> files_opened (events s') = files_opened (events s)
           \<and> errors_logged (events s') =
               errors_logged (events s)
                 @ [ErrorFetching (name cam) (url cam) (HTTPError, ''bad status'')])"
proof -
  assume run: "try_except cam c filepath s = (x, fp', s')"
  then have s': "s' = snd (snd (try_except cam c filepath s))" by simp
  have 1: "files_written (events s') =
       files_written (events s) @
         (case get_result c of
            Inl e \<Rightarrow> []
          | Inr r \<Rightarrow>
              if \<not> (400 \<le> status_code r \<and> status_code r < 600)
                 \<and> open_result c = None \<and> write_result c = None
              then [(image_path cam (now c) (extension_of r), content r)]
              else [])"
    unfolding s' by (simp add: try_body_written raise_for_status_None split: sum.splits)
  have 2: "x = None \<and> files_opened (events s') = files_opened (events s)
           \<and> errors_logged (events s') =
               errors_logged (events s)
                 @ [ErrorFetching (name cam) (url cam) (HTTPError, ''bad status'')]"
    if "get_result c = Inr r" "400 \<le> status_code r" "status_code r < 600" for r
    using run try_except_bad_status [OF that, of cam filepath s] by auto
  from 1 2 show ?thesis by blast
qed

theorem fetch_writes_one_file_or_none_witness:
  "\<exists>x fp' s'.
     try_except pool (calm (Inr (reply 500 None)) 1) None (initial_state 0) = (x, fp', s')
     \<and> x = None \<and> files_written (events s') = []
     \<and> errors_logged (events s') =
         [ErrorFetching ''Pool'' ''https://example.com/Pool.jpg'' (HTTPError, ''bad status'')]"
proof -
  let ?c = "calm (Inr (reply 500 None)) 1"
  obtain x fp' s' where run: "try_except pool ?c None (initial_state 0) = (x, fp', s')"
    by (cases "try_except pool ?c None (initial_state 0)") auto
  have g: "get_result ?c = Inr (reply 500 None)" "status_code (reply 500 None) = 500"
    by (simp_all add: calm_def reply_def)
  from fetch_writes_one_file_or_none [OF run] g
  have "x = None \<and> files_written (events s') = []
     \<and> errors_logged (events s') =
         [ErrorFetching ''Pool'' ''https://example.com/Pool.jpg'' (HTTPError, ''bad status'')]"
    by (simp add: initial_state_def pool_def)
  with run show ?thesis by blast
qed

text \<open>
  The claim as stated ties the file to a 2xx status. A response with status 304 is not
  2xx and its body is written; a response with status 200 whose file cannot be opened
  leaves no file.
\<close>

theorem file_iff_2xx_counterexample:
  "status_code (reply 304 None) = 304
   \<and> files_written (events (snd (snd
        (try_except pool (calm (Inr (reply 304 None)) 1) None (initial_state 0)))))
       = [(''camera_images/Pool/Pool_20240102_030405.jpg'', ''bytes'')]
   \<and> status_code (reply 200 None) = 200
   \<and> files_written (events (snd (snd
        (try_except pool ((calm (Inr (reply 200 None)) 1)\<lparr>open_result := Some (OSError, ''denied'')\<rparr>)
           None (initial_state 0)))))
       = []"
  by code_simp


section \<open>Timestamps\<close>

lemma digit_is_digit: "is_digit (digit d)"
  unfolding digit_def is_digit_def by (rule nth_mem) simp

lemma zero_is_digit: "is_digit (CHR ''0'')"
  by (simp add: is_digit_def)

lemma decimal_small: "n < 10 \<Longrightarrow> decimal n = [digit n]"
  by simp

lemma decimal_step: "10 \<le> n \<Longrightarrow> decimal n = decimal (n div 10) @ [digit n]"
  by simp

lemma decimal_2: "10 \<le> n \<Longrightarrow> n < 100 \<Longrightarrow> decimal n = [digit (n div 10), digit n]"
  by (subst decimal.simps) simp

lemma decimal_3: "100 \<le> n \<Longrightarrow> n < 1000 \<Longrightarrow> decimal n = [digit (n div 100), digit (n div 10), digit n]"
  by (subst decimal.simps) (simp add: decimal_2 div_mult2_eq[symmetric] del: decimal.simps)

lemma decimal_4: "1000 \<le> n \<Longrightarrow> n < 10000 \<Longrightarrow>
   decimal n = [digit (n div 1000), digit (n div 100), digit (n div 10), digit n]"
  by (subst decimal.simps) (simp add: decimal_3 div_mult2_eq[symmetric] del: decimal.simps)

lemma pad2_digits: "n < 100 \<Longrightarrow> \<exists>a b. pad2 n = [a, b] \<and> is_digit a \<and> is_digit b"
proof (cases "n < 10")
  case True
  then have "pad2 n = [CHR ''0'', digit n]" by (simp add: pad2_def zfill_def)
  then show ?thesis by (simp add: digit_is_digit zero_is_digit)
next
  case False
  assume "n < 100"
  with False have "pad2 n = [digit (n div 10), digit n]"
    by (simp add: pad2_def zfill_def decimal_2 del: decimal.simps)
  then show ?thesis by (simp add: digit_is_digit)
qed

lemma pad4_digits: "1000 \<le> n \<Longrightarrow> n < 10000 \<Longrightarrow>
   \<exists>a b c d. pad4 n = [a, b, c, d] \<and> is_digit a \<and> is_digit b \<and> is_digit c \<and> is_digit d"
  by (simp add: pad4_def zfill_def decimal_4 digit_is_digit del: decimal.simps)

lemma strftime_shape:
  assumes "valid_datetime t"
  shows "\<exists>d t'. strftime t = d @ ''_'' @ t' \<and> length d = 8 \<and> length t' = 6
           \<and> list_all is_digit d \<and> list_all is_digit t'"
proof -
  from assms have y: "1000 \<le> year t" "year t < 10000" and m: "month t < 100" and d: "day t < 100"
    and h: "hour t < 100" and mi: "minute t < 100" and se: "second t < 100"
    by (simp_all add: valid_datetime_def)
  from pad4_digits [OF y] obtain y1 y2 y3 y4 where
    py: "pad4 (year t) = [y1, y2, y3, y4]" "is_digit y1" "is_digit y2" "is_digit y3" "is_digit y4"
    by blast
  from pad2_digits [OF m] obtain m1 m2 where
    pm: "pad2 (month t) = [m1, m2]" "is_digit m1" "is_digit m2" by blast
  from pad2_digits [OF d] obtain d1 d2 where
    pd: "pad2 (day t) = [d1, d2]" "is_digit d1" "is_digit d2" by blast
  from pad2_digits [OF h] obtain h1 h2 where
    ph: "pad2 (hour t) = [h1, h2]" "is_digit h1" "is_digit h2" by blast
  from pad2_digits [OF mi] obtain i1 i2 where
    pi: "pad2 (minute t) = [i1, i2]" "is_digit i1" "is_digit i2" by blast
  from pad2_digits [OF se] obtain s1 s2 where
    ps: "pad2 (second t) = [s1, s2]" "is_digit s1" "is_digit s2" by blast
  have "strftime t = [y1, y2, y3, y4, m1, m2, d1, d2] @ ''_'' @ [h1, h2, i1, i2, s1, s2]"
    by (simp add: strftime_def py pm pd ph pi ps)
  moreover have "list_all is_digit [y1, y2, y3, y4, m1, m2, d1, d2]"
    "list_all is_digit [h1, h2, i1, i2, s1, s2]"
    using py pm pd ph pi ps by simp_all
  ultimately show ?thesis
    by (intro exI [of _ "[y1, y2, y3, y4, m1, m2, d1, d2]"] exI [of _ "[h1, h2, i1, i2, s1, s2]"]) simp
qed


section \<open>The extension of the saved file\<close>

lemma startswith_iff: "startswith s p \<longleftrightarrow> (\<exists>suf. s = p @ suf)"
  unfolding startswith_def
  by (metis append_eq_conv_conj append_take_drop_id)


lemma py_in_iff: "py_in pat s \<longleftrightarrow> (\<exists>pre suf. s = pre @ pat @ suf)"
proof (induction s)
  case Nil
  show ?case by auto
next
  case (Cons c cs)
  show ?case
  proof
    assume "py_in pat (c # cs)"
    then consider "startswith (c # cs) pat" | "py_in pat cs" by auto
    then show "\<exists>pre suf. c # cs = pre @ pat @ suf"
    proof cases
      case 1
      then obtain suf where "c # cs = pat @ suf" by (auto simp: startswith_iff)
      then have "c # cs = [] @ pat @ suf" by simp
      then show ?thesis by blast
    next
      case 2
      with Cons.IH obtain pre suf where "cs = pre @ pat @ suf" by blast
      then have "c # cs = (c # pre) @ pat @ suf" by simp
      then show ?thesis by blast
    qed
  next
    assume "\<exists>pre suf. c # cs = pre @ pat @ suf"
    then obtain pre suf where eq: "c # cs = pre @ pat @ suf" by blast
    show "py_in pat (c # cs)"
    proof (cases pre)
      case Nil
      with eq have "startswith (c # cs) pat" by (auto simp: startswith_iff)
      then show ?thesis by simp
    next
      case (Cons a pre')
      with eq have "cs = pre' @ pat @ suf" by simp
      with Cons.IH have "py_in pat cs" by blast
      then show ?thesis by simp
    qed
  qed
qed

lemma lower_append [simp]: "lower (xs @ ys) = lower xs @ lower ys"
  by (simp add: lower_def)

lemma lower_eq_append:
  "lower s = xs @ ys \<longleftrightarrow> (\<exists>a b. s = a @ b \<and> lower a = xs \<and> lower b = ys)"
  unfolding lower_def by (auto simp: map_eq_append_conv)

lemma py_in_lower_iff:
  "lower pat = pat \<Longrightarrow> py_in pat (lower s) \<longleftrightarrow> ci_substring pat s"
  unfolding py_in_iff ci_substring_def
proof
  assume fixp: "lower pat = pat"
  assume "\<exists>pre suf. lower s = pre @ pat @ suf"
  then obtain pre suf where "lower s = pre @ pat @ suf" by blast
  then obtain a b where ab: "s = a @ b" "lower a = pre" "lower b = pat @ suf"
    by (auto simp: lower_eq_append)
  then obtain w d where wd: "b = w @ d" "lower w = pat" "lower d = suf"
    by (auto simp: lower_eq_append)
  with ab fixp have "s = a @ w @ d \<and> lower w = lower pat" by simp
  then show "\<exists>pre block suf. s = pre @ block @ suf \<and> lower block = lower pat" by blast
next
  assume fixp: "lower pat = pat"
  assume "\<exists>pre block suf. s = pre @ block @ suf \<and> lower block = lower pat"
  then obtain a w d where "s = a @ w @ d" "lower w = lower pat" by blast
  with fixp have "lower s = lower a @ pat @ lower d" by simp
  then show "\<exists>pre suf. lower s = pre @ pat @ suf" by blast
qed

lemma mime_lower:
  "lower ''image/jpeg'' = ''image/jpeg''" "lower ''image/png'' = ''image/png''"
  "lower ''image/gif'' = ''image/gif''" "lower ''image/bmp'' = ''image/bmp''"
  by code_simp+

lemma ci_substring_Nil: "pat \<noteq> [] \<Longrightarrow> \<not> ci_substring pat []"
  by (auto simp: ci_substring_def lower_def)

text \<open>
  Claim C6. The extension is decided by a case-insensitive substring match of the
  content-type header against four MIME types, tried in this order: \<open>image/jpeg\<close> gives
  \<open>.jpg\<close>, \<open>image/png\<close> gives \<open>.png\<close>, \<open>image/gif\<close> gives \<open>.gif\<close>, \<open>image/bmp\<close> gives
  \<open>.bmp\<close>, each without a log record. When the header is missing, empty or matches none
  of them, the extension is \<open>.jpg\<close> and a warning is logged. The saved file carries this
  extension.
\<close>

theorem extension_by_content_type:
  "get_file_extension r s =
     (if declares r ''image/jpeg'' then (''.jpg'', s)
      else if declares r ''image/png'' then (''.png'', s)
      else if declares r ''image/gif'' then (''.gif'', s)
      else if declares r ''image/bmp'' then (''.bmp'', s)
      else (''.jpg'', logging WARNING DefaultingToJpg s))"
proof (cases "content_type r")
  case None
  then show ?thesis by (simp add: get_file_extension_def declares_def)
next
  case (Some ct)
  show ?thesis
  proof (cases "ct = []")
    case True
    with Some show ?thesis
      by (simp add: get_file_extension_def declares_def ci_substring_Nil)
  next
    case False
    with Some show ?thesis
      by (simp add: get_file_extension_def declares_def Let_def py_in_lower_iff mime_lower)
  qed
qed

section \<open>The name and path of the saved file\<close>

lemma startswith_slash: "startswith b ''/'' \<longleftrightarrow> b \<noteq> [] \<and> hd b = CHR ''/''"
  by (cases b) (simp_all add: startswith_def)

lemma endswith_slash: "endswith a ''/'' \<longleftrightarrow> a \<noteq> [] \<and> last a = CHR ''/''"
proof (cases "a = []")
  case True
  then show ?thesis by (simp add: endswith_def)
next
  case False
  then have "a = butlast a @ [last a]" by simp
  then have "drop (length a - 1) a = [last a]"
    by (metis False append_butlast_last_id append_eq_conv_conj length_butlast)
  with False show ?thesis
    by (cases a) (auto simp: endswith_def)
qed

lemma path_join_plain:
  "a \<noteq> [] \<Longrightarrow> last a \<noteq> CHR ''/'' \<Longrightarrow> b \<noteq> [] \<Longrightarrow> hd b \<noteq> CHR ''/'' \<Longrightarrow>
     path_join a b = a @ ''/'' @ b"
  by (simp add: path_join_def startswith_slash endswith_slash)

lemma image_path_plain:
  assumes "name cam \<noteq> []" "hd (name cam) \<noteq> CHR ''/''" "last (name cam) \<noteq> CHR ''/''"
  shows "image_path cam t ext =
           SAVE_DIR @ ''/'' @ name cam @ ''/'' @ name cam @ ''_'' @ strftime t @ ext"
proof -
  have 1: "path_join SAVE_DIR (name cam) = SAVE_DIR @ ''/'' @ name cam"
    using assms by (intro path_join_plain) (simp_all add: SAVE_DIR_def)
  have 2: "path_join (SAVE_DIR @ ''/'' @ name cam) (name cam @ ''_'' @ strftime t @ ext) =
             (SAVE_DIR @ ''/'' @ name cam) @ ''/'' @ (name cam @ ''_'' @ strftime t @ ext)"
    using assms by (intro path_join_plain) simp_all
  show ?thesis unfolding image_path_def 1 2 by simp
qed

lemma try_body_saved:
  assumes "try_body cam c filepath s = (None, fp', s')"
  shows "\<exists>r. get_result c = Inr r
           \<and> fp' = Some (image_path cam (now c) (extension_of r))
           \<and> files_written (events s') =
               files_written (events s) @ [(image_path cam (now c) (extension_of r), content r)]"
proof -
  from assms have x: "fst (try_body cam c filepath s) = None"
    and p: "fp' = fst (snd (try_body cam c filepath s))"
    and s': "s' = snd (snd (try_body cam c filepath s))" by simp_all
  from x obtain r where r: "get_result c = Inr r" "raise_for_status r = None"
    "open_result c = None" "write_result c = None"
    unfolding try_body_raised by (auto split: sum.splits option.splits)
  have "fp' = Some (image_path cam (now c) (extension_of r))"
    unfolding p try_body_filepath by (simp add: r)
  moreover have "files_written (events s') =
      files_written (events s) @ [(image_path cam (now c) (extension_of r), content r)]"
    unfolding s' try_body_written by (simp add: r)
  ultimately show ?thesis using r by blast
qed

text \<open>
  Claim C7, as amended. After a successful fetch the file name holds the wall clock as
  \<open>YYYYMMDD_HHMMSS\<close>: eight digits, an underscore, six digits. For a camera name that is
  not empty and neither begins nor ends with a slash, the body is written at
  \<open>{root}/{name}/{name}_{timestamp}{ext}\<close>, with POSIX path separators, where \<open>ext\<close> is the
  extension \<open>get_file_extension\<close> returns for the response.
\<close>

theorem saved_file_name_and_path:
  assumes "try_body cam c filepath s = (None, fp', s')"
    and "valid_datetime (now c)"
    and "name cam \<noteq> []" "hd (name cam) \<noteq> CHR ''/''" "last (name cam) \<noteq> CHR ''/''"
  shows "\<exists>r d t.
           get_result c = Inr r
           \<and> strftime (now c) = d @ ''_'' @ t
           \<and> length d = 8 \<and> length t = 6 \<and> list_all is_digit d \<and> list_all is_digit t
           \<and> fp' = Some (SAVE_DIR @ ''/'' @ name cam @ ''/'' @ name cam @ ''_''
                           @ strftime (now c) @ extension_of r)
           \<and> files_written (events s') =
               files_written (events s)
                 @ [(SAVE_DIR @ ''/'' @ name cam @ ''/'' @ name cam @ ''_''
                       @ strftime (now c) @ extension_of r, content r)]"
proof -
  from try_body_saved [OF assms(1)] obtain r where r: "get_result c = Inr r"
    "fp' = Some (image_path cam (now c) (extension_of r))"
    "files_written (events s') =
       files_written (events s) @ [(image_path cam (now c) (extension_of r), content r)]"
    by blast
  from strftime_shape [OF assms(2)] obtain d t where dt: "strftime (now c) = d @ ''_'' @ t"
    "length d = 8" "length t = 6" "list_all is_digit d" "list_all is_digit t" by blast
  note ip = image_path_plain [OF assms(3-5)]
  show ?thesis
    using r dt unfolding ip by blast
qed

theorem saved_file_name_and_path_witness:
  "\<exists>fp' s' d t.
     try_body pool (calm (Inr (reply 200 (Some ''image/jpeg''))) 1) None (initial_state 0)
       = (None, fp', s')
     \<and> strftime stamp = d @ ''_'' @ t \<and> length d = 8 \<and> length t = 6
     \<and> files_written (events s') =
         [(''camera_images/Pool/Pool_'' @ strftime stamp @ ''.jpg'', ''bytes'')]"
proof -
  let ?r = "reply 200 (Some ''image/jpeg'')"
  let ?c = "calm (Inr ?r) 1"
  have "fst (try_body pool ?c None (initial_state 0)) = None" by code_simp
  then obtain fp' s' where run: "try_body pool ?c None (initial_state 0) = (None, fp', s')"
    by (cases "try_body pool ?c None (initial_state 0)") auto
  have v: "valid_datetime (now ?c)" by (simp add: calm_def stamp_def valid_datetime_def)
  have n: "name pool \<noteq> []" "hd (name pool) \<noteq> CHR ''/''" "last (name pool) \<noteq> CHR ''/''"
    by (simp_all add: pool_def)
  have e: "extension_of ?r = ''.jpg''" by code_simp
  from saved_file_name_and_path [OF run v n] e
  obtain d t where "strftime stamp = d @ ''_'' @ t" "length d = 8" "length t = 6"
    "files_written (events s') =
         [(''camera_images/Pool/Pool_'' @ strftime stamp @ ''.jpg'', ''bytes'')]"
    by (auto simp: calm_def reply_def pool_def initial_state_def SAVE_DIR_def)
  with run show ?thesis by blast
qed

text \<open>
  The claim as stated has fourteen contiguous digits. The timestamp of 2024-01-02 03:04:05
  has fifteen characters, the ninth an underscore.
\<close>

theorem timestamp_fourteen_digits_counterexample:
  "strftime stamp = ''20240102_030405''
   \<and> length (strftime stamp) = 15
   \<and> \<not> list_all is_digit (strftime stamp)
   \<and> files_written (events (snd (snd
        (try_body pool (calm (Inr (reply 200 (Some ''image/jpeg''))) 1) None (initial_state 0)))))
       = [(''camera_images/Pool/Pool_20240102_030405.jpg'', ''bytes'')]"
  by code_simp


section \<open>Shutdown\<close>

lemma event_wait_set: "shutdown_event s \<Longrightarrow> event_wait d sg s = emit (Wait d) s"
  by (simp add: event_wait_def Let_def)

lemma event_wait_flag:
  "shutdown_event (event_wait d sg s) \<longleftrightarrow>
     shutdown_event s \<or> (\<exists>sig dt. sg = Some (sig, dt) \<and> 0 \<le> dt \<and> dt < d)"
  by (auto simp: event_wait_def Let_def split: option.splits)

lemma event_wait_fetches [simp]:
  "fetches (events (event_wait d sg s)) = fetches (events s)"
  by (simp add: event_wait_def Let_def split: option.splits prod.splits)

lemma elapse_fetches [simp]: "fetches (events (elapse c t0 s)) = fetches (events s)"
  by (cases "signal_in_fetch c") simp_all

lemma poll_set:
  "shutdown_event s \<Longrightarrow> poll cam cs fp s = (Exited, logging INFO (PollingStopped (name cam)) s)"
  by (cases cs) simp_all

lemma iteration_Inr:
  assumes "iteration cam c fp s = Inr (fp', s')"
  shows "s' = event_wait
                (max 0 (rounding c (rounding c (monotonic s + interval cam) - (monotonic s + busy c))))
                (signal_in_wait c)
               (logging DEBUG
                  (Sleeping (name cam)
                    (max 0 (rounding c (rounding c (monotonic s + interval cam)
                                          - (monotonic s + busy c)))))
                  (elapse c (monotonic s) (snd (snd (try_except cam c fp s)))))"
    and "fst (try_except cam c fp s) = None"
    and "fp' = fst (snd (try_except cam c fp s))"
  using assms
  by (auto simp: iteration_def Let_def sleep_duration_def split: prod.splits option.splits)

lemma iteration_flag:
  assumes "iteration cam c fp s = Inr (fp', s')"
  shows "shutdown_event s' \<longleftrightarrow>
     shutdown_event s \<or> signal_in_fetch c \<noteq> None
     \<or> (\<exists>sig dt. signal_in_wait c = Some (sig, dt) \<and> 0 \<le> dt
           \<and> dt < max 0 (rounding c (rounding c (monotonic s + interval cam)
                                        - (monotonic s + busy c))))"
  unfolding iteration_Inr(1) [OF assms] event_wait_flag by simp

lemma iteration_fetches:
  assumes "iteration cam c fp s = Inr (fp', s')"
  shows "fetches (events s') = Suc (fetches (events s))"
  unfolding iteration_Inr(1) [OF assms] by (simp split: option.split)

text \<open>
  Claim C3. The shutdown flag starts false. The signal handler sets it, and setting it
  again changes nothing. No step of a poll loop clears it: once set it stays set through
  the \<open>try\<close> statement, the passing of time, the wait and the loop. A loop that finds the
  flag set at the top of an iteration exits without a further fetch, and a wait that finds
  it set returns at once. When a signal is handled during an iteration, while the fetch
  runs or during the wait before its timeout, the iteration ends with the flag set and the
  loop exits after it, having made that one fetch and no other, whatever the rest of the
  schedule holds.
\<close>

theorem shutdown_flag_set_once_stops_loop:
  "shutdown_event (initial_state t0) = False
   \<and> shutdown_event (signal_handler sig s)
   \<and> shutdown_event (signal_handler sig2 (signal_handler sig s))
       = shutdown_event (signal_handler sig s)
   \<and> (shutdown_event s \<longrightarrow>
        shutdown_event (elapse c (monotonic s) s)
        \<and> shutdown_event (snd (snd (try_except cam c fp s)))
        \<and> event_wait d sg s = emit (Wait d) s
        \<and> shutdown_event (event_wait d sg s)
        \<and> poll cam cs fp s = (Exited, logging INFO (PollingStopped (name cam)) s)
        \<and> shutdown_event (snd (poll cam cs fp s))
        \<and> fetches (events (snd (poll cam cs fp s))) = fetches (events s))
   \<and> (iteration cam c fp s = Inr (fp', s') \<and> shutdown_event s \<longrightarrow> shutdown_event s')
   \<and> (iteration cam c fp s = Inr (fp', s') \<and> \<not> shutdown_event s
        \<and> (signal_in_fetch c \<noteq> None
            \<or> (\<exists>sg' dt. signal_in_wait c = Some (sg', dt) \<and> 0 \<le> dt
                  \<and> dt < max 0 (rounding c (rounding c (monotonic s + interval cam)
                                               - (monotonic s + busy c))))) \<longrightarrow>
        shutdown_event s'
        \<and> poll cam (c # cs) fp s = (Exited, logging INFO (PollingStopped (name cam)) s')
        \<and> fetches (events (snd (poll cam (c # cs) fp s))) = fetches (events s) + 1)"
proof -
  have a1: "shutdown_event (initial_state t0) = False" by (simp add: initial_state_def)
  have a2: "shutdown_event (signal_handler sig s)" by simp
  have a3: "shutdown_event (signal_handler sig2 (signal_handler sig s))
       = shutdown_event (signal_handler sig s)" by simp
  have b: "shutdown_event s \<longrightarrow>
        shutdown_event (elapse c (monotonic s) s)
        \<and> shutdown_event (snd (snd (try_except cam c fp s)))
        \<and> event_wait d sg s = emit (Wait d) s
        \<and> shutdown_event (event_wait d sg s)
        \<and> poll cam cs fp s = (Exited, logging INFO (PollingStopped (name cam)) s)
        \<and> shutdown_event (snd (poll cam cs fp s))
        \<and> fetches (events (snd (poll cam cs fp s))) = fetches (events s)"
    by (simp add: event_wait_set poll_set)
  have c: "iteration cam c fp s = Inr (fp', s') \<and> shutdown_event s \<longrightarrow> shutdown_event s'"
    by (auto simp: iteration_flag)
  have d: "iteration cam c fp s = Inr (fp', s') \<and> \<not> shutdown_event s
        \<and> (signal_in_fetch c \<noteq> None
            \<or> (\<exists>sg' dt. signal_in_wait c = Some (sg', dt) \<and> 0 \<le> dt
                  \<and> dt < max 0 (rounding c (rounding c (monotonic s + interval cam)
                                               - (monotonic s + busy c))))) \<longrightarrow>
        shutdown_event s'
        \<and> poll cam (c # cs) fp s = (Exited, logging INFO (PollingStopped (name cam)) s')
        \<and> fetches (events (snd (poll cam (c # cs) fp s))) = fetches (events s) + 1"
  proof (intro impI, elim conjE)
    assume it: "iteration cam c fp s = Inr (fp', s')" and off: "\<not> shutdown_event s"
      and sg: "signal_in_fetch c \<noteq> None
            \<or> (\<exists>sg' dt. signal_in_wait c = Some (sg', dt) \<and> 0 \<le> dt
                  \<and> dt < max 0 (rounding c (rounding c (monotonic s + interval cam)
                                               - (monotonic s + busy c))))"
    from sg have on: "shutdown_event s'" unfolding iteration_flag [OF it] by blast
    have "poll cam (c # cs) fp s = poll cam cs fp' s'" using it off by simp
    also have "\<dots> = (Exited, logging INFO (PollingStopped (name cam)) s')"
      using on by (rule poll_set)
    finally show "shutdown_event s'
        \<and> poll cam (c # cs) fp s = (Exited, logging INFO (PollingStopped (name cam)) s')
        \<and> fetches (events (snd (poll cam (c # cs) fp s))) = fetches (events s) + 1"
      using on iteration_fetches [OF it] by simp
  qed
  show ?thesis
    using a1 a2 a3 b c d by (intro conjI) assumption+
qed

theorem shutdown_flag_set_once_stops_loop_witness:
  "\<exists>fp' s'.
     iteration pool ((calm (Inr (reply 200 None)) 5)\<lparr>signal_in_wait := Some (SIGTERM, 10)\<rparr>)
       None (initial_state 0) = Inr (fp', s')
     \<and> shutdown_event s'
     \<and> fetches (events (snd (poll pool
          [(calm (Inr (reply 200 None)) 5)\<lparr>signal_in_wait := Some (SIGTERM, 10)\<rparr>,
           calm (Inr (reply 200 None)) 5]
          None (initial_state 0)))) = 1
     \<and> fst (poll pool [calm (Inr (reply 200 None)) 5] None (signal_handler SIGINT (initial_state 0)))
         = Exited"
proof -
  let ?c = "(calm (Inr (reply 200 None)) 5)\<lparr>signal_in_wait := Some (SIGTERM, 10)\<rparr>"
  let ?s = "initial_state 0"
  have "case iteration pool ?c None ?s of Inl x \<Rightarrow> False | Inr y \<Rightarrow> True"
    by code_simp
  then obtain fp' s' where it: "iteration pool ?c None ?s = Inr (fp', s')"
    by (auto split: sum.splits)
  have off: "\<not> shutdown_event ?s" by (simp add: initial_state_def)
  have sg: "signal_in_fetch ?c \<noteq> None
            \<or> (\<exists>sg' dt. signal_in_wait ?c = Some (sg', dt) \<and> 0 \<le> dt
                  \<and> dt < max 0 (rounding ?c (rounding ?c (monotonic ?s + interval pool)
                                                - (monotonic ?s + busy ?c))))"
    by (simp add: calm_def pool_def initial_state_def)
  note th = shutdown_flag_set_once_stops_loop
    [of 0 SIGINT ?s SIGINT ?c pool None 0 None "[calm (Inr (reply 200 None)) 5]" fp' s']
  from th it off sg have 1: "shutdown_event s'"
    and 2: "fetches (events (snd (poll pool [?c, calm (Inr (reply 200 None)) 5] None ?s)))
            = fetches (events ?s) + 1"
    by blast+
  have 3: "fetches (events ?s) = 0" by (simp add: initial_state_def)
  from shutdown_flag_set_once_stops_loop
    [of 0 SIGINT ?s SIGINT ?c pool None 0 None "[calm (Inr (reply 200 None)) 5]" fp' s'
       , THEN conjunct2, THEN conjunct1]
  have on: "shutdown_event (signal_handler SIGINT ?s)" .
  from shutdown_flag_set_once_stops_loop
    [of 0 SIGINT "signal_handler SIGINT ?s" SIGINT ?c pool None 0 None
        "[calm (Inr (reply 200 None)) 5]" fp' s'] on
  have 4: "fst (poll pool [calm (Inr (reply 200 None)) 5] None (signal_handler SIGINT ?s)) = Exited"
    by simp
  from it 1 2 3 4 show ?thesis by auto
qed

section \<open>Failures inside a cycle\<close>

text \<open>
  Every exception that leaves the \<open>try\<close> body is logged as an error tagged with the
  camera, and the iteration goes on to its wait, unless it is an \<open>OSError\<close> outside the
  HTTP library's classes raised while \<open>filepath\<close> is unbound.
\<close>

lemma event_wait_errors [simp]:
  "errors_logged (events (event_wait d sg s)) = errors_logged (events s)"
  by (simp add: event_wait_def Let_def split: option.splits prod.splits)

lemma elapse_errors [simp]:
  "errors_logged (events (elapse c t0 s)) = errors_logged (events s)"
  by (cases "signal_in_fetch c") simp_all

lemma handlers_logs:
  assumes "is_RequestException (fst e) \<or> \<not> is_OSError (fst e) \<or> fp \<noteq> None"
  shows "\<exists>m. handlers cam fp e s = Inr (logging ERROR m s) \<and> tagged_camera m = Some (name cam)"
  using assms by (cases fp) (auto simp: handlers_def)

lemma failure_logged_and_loop_goes_on:
  assumes "fst (try_body cam c fp s) = Some e"
    and "is_RequestException (fst e) \<or> \<not> is_OSError (fst e)
         \<or> fst (snd (try_body cam c fp s)) \<noteq> None"
  shows "\<exists>fp' s' m. iteration cam c fp s = Inr (fp', s')
           \<and> errors_logged (events s') = errors_logged (events s) @ [m]
           \<and> tagged_camera m = Some (name cam)"
proof -
  obtain fp1 s1 where tb: "try_body cam c fp s = (Some e, fp1, s1)"
    using assms(1) by (cases "try_body cam c fp s") auto
  with assms(2) have "is_RequestException (fst e) \<or> \<not> is_OSError (fst e) \<or> fp1 \<noteq> None"
    by simp
  from handlers_logs [OF this, of cam s1] obtain m where
    h: "handlers cam fp1 e s1 = Inr (logging ERROR m s1)" and t: "tagged_camera m = Some (name cam)"
    by blast
  have e1: "errors_logged (events s1) = errors_logged (events s)"
    using try_body_errors [of cam c fp s] tb by simp
  have te: "try_except cam c fp s = (None, fp1, logging ERROR m s1)"
    by (simp add: try_except_def tb h)
  let ?s2 = "elapse c (monotonic s) (logging ERROR m s1)"
  let ?d = "sleep_duration (rounding c) (rounding c (monotonic s + interval cam)) ?s2"
  let ?s' = "event_wait ?d (signal_in_wait c) (logging DEBUG (Sleeping (name cam) ?d) ?s2)"
  have it: "iteration cam c fp s = Inr (fp1, ?s')"
    by (simp add: iteration_def te Let_def)
  have "errors_logged (events ?s') = errors_logged (events s) @ [m]"
    by (simp add: e1 split: option.split)
  with it t show ?thesis by blast
qed

text \<open>
  Claim C4. The claim says that no exception escapes the loop. When \<open>requests.get\<close>
  raises an \<open>OSError\<close> that is not a \<open>RequestException\<close> in the first cycle, the
  \<open>except OSError\<close> clause formats \<open>filepath\<close>, which is still unbound, and the
  \<open>UnboundLocalError\<close> it raises leaves the loop: no error is logged and the second cycle of
  the schedule is never fetched.
\<close>

theorem oserror_before_first_save_escapes:
  "fetch_and_save pool
     [calm (Inl (OSError, ''no CA bundle'')) 1, calm (Inr (reply 200 None)) 1] (initial_state 0)
   = (Crashed (UnboundLocalError, ''filepath''),
      \<lparr>monotonic = 1, shutdown_event = False,
       events = [Log INFO (StartingPolling ''Pool'' 30),
                 Log DEBUG (Fetching ''Pool'' ''https://example.com/Pool.jpg''),
                 Get ''https://example.com/Pool.jpg'' 15]\<rparr>)"
  by code_simp


section \<open>The poll loop's schedule\<close>








section \<open>Provisioning and the supervisor\<close>

lemma makedirs_cases:
  "makedirs p fs = (if creatable fs p then Inr (if p \<in> set (dirs fs) then fs else fs\<lparr>dirs := dirs fs @ [p]\<rparr>)
                    else Inl (OSError, p))"
  by (simp add: makedirs_def creatable_def)

lemma makedirs_creatable:
  "makedirs p fs = Inr fs' \<Longrightarrow> creatable fs' q \<longleftrightarrow> creatable fs q \<or> q = p"
  by (auto simp: makedirs_def creatable_def split: if_splits)

lemma makedirs_Inr_creatable: "makedirs p fs = Inr fs' \<Longrightarrow> creatable fs p"
  by (auto simp: makedirs_def creatable_def split: if_splits)

lemma makedirs_Inl: "makedirs p fs = Inl e \<Longrightarrow> \<not> creatable fs p"
  by (auto simp: makedirs_def creatable_def split: if_splits)

lemma makedirs_existing: "p \<in> set (dirs fs) \<Longrightarrow> makedirs p fs = Inr fs"
  by (simp add: makedirs_def)

lemma makedirs_dirs: "makedirs p fs = Inr fs' \<Longrightarrow> set (dirs fs') = insert p (set (dirs fs))"
  by (auto simp: makedirs_def split: if_splits)

lemma camera_directories_ok:
  "fst (camera_directories cams fs s) = None \<longleftrightarrow>
     (\<forall>cam\<in>set cams. creatable fs (path_join SAVE_DIR (name cam)))"
proof (induction cams arbitrary: fs s)
  case Nil
  show ?case by simp
next
  case (Cons cam cams)
  show ?case
  proof (cases "makedirs (path_join SAVE_DIR (name cam)) fs")
    case (Inl e)
    then show ?thesis using makedirs_Inl [OF Inl] by simp
  next
    case (Inr fs1)
    have "fst (camera_directories (cam # cams) fs s) = None \<longleftrightarrow>
          (\<forall>c\<in>set cams. creatable fs1 (path_join SAVE_DIR (name c)))"
      using Inr Cons.IH by simp
    also have "\<dots> \<longleftrightarrow> (\<forall>c\<in>set (cam # cams). creatable fs (path_join SAVE_DIR (name c)))"
      using makedirs_creatable [OF Inr] makedirs_Inr_creatable [OF Inr] by auto
    finally show ?thesis .
  qed
qed

lemma camera_directories_existing:
  "(\<forall>cam\<in>set cams. path_join SAVE_DIR (name cam) \<in> set (dirs fs)) \<Longrightarrow>
     fst (camera_directories cams fs s) = None \<and> fst (snd (camera_directories cams fs s)) = fs"
  by (induction cams arbitrary: s) (simp_all add: makedirs_existing)

lemma camera_directories_dirs:
  "fst (camera_directories cams fs s) = None \<Longrightarrow>
     set (dirs (fst (snd (camera_directories cams fs s)))) =
       set (dirs fs) \<union> (\<lambda>cam. path_join SAVE_DIR (name cam)) ` set cams"
proof (induction cams arbitrary: fs s)
  case Nil
  show ?case by simp
next
  case (Cons cam cams)
  show ?case
  proof (cases "makedirs (path_join SAVE_DIR (name cam)) fs")
    case (Inl e)
    with Cons.prems show ?thesis by simp
  next
    case (Inr fs1)
    with Cons.prems Cons.IH [of fs1] makedirs_dirs [OF Inr] show ?thesis by auto
  qed
qed

lemma camera_directories_flag [simp]:
  "shutdown_event (snd (snd (camera_directories cams fs s))) = shutdown_event s"
  by (induction cams arbitrary: fs s) (simp_all add: Let_def split: sum.splits)

lemma setup_directories_status:
  "fst (setup_directories cams fs s) = None \<or> fst (setup_directories cams fs s) = Some 1"
  by (simp add: setup_directories_def split: sum.splits prod.splits option.splits)

lemma setup_directories_flag [simp]:
  "shutdown_event (snd (snd (setup_directories cams fs s))) = shutdown_event s"
proof (cases "makedirs SAVE_DIR fs")
  case (Inl e)
  then show ?thesis by (simp add: setup_directories_def)
next
  case (Inr fs1)
  have "shutdown_event (snd (snd (camera_directories cams fs1 (logging INFO (MainSaveDirectory SAVE_DIR) s))))
        = shutdown_event s" by simp
  with Inr show ?thesis
    by (cases "camera_directories cams fs1 (logging INFO (MainSaveDirectory SAVE_DIR) s)")
       (auto simp: setup_directories_def split: option.splits)
qed

lemma setup_directories_ok:
  "fst (setup_directories cams fs s) = None \<longleftrightarrow>
     (\<forall>p\<in>set (needed_directories cams). creatable fs p)"
proof (cases "makedirs SAVE_DIR fs")
  case (Inl e)
  then show ?thesis using makedirs_Inl [OF Inl]
    by (simp add: setup_directories_def needed_directories_def)
next
  case (Inr fs1)
  let ?r = "camera_directories cams fs1 (logging INFO (MainSaveDirectory SAVE_DIR) s)"
  have "fst (setup_directories cams fs s) = None \<longleftrightarrow> fst ?r = None"
    using Inr by (cases ?r) (auto simp: setup_directories_def split: option.splits)
  also have "\<dots> \<longleftrightarrow> (\<forall>cam\<in>set cams. creatable fs1 (path_join SAVE_DIR (name cam)))"
    by (rule camera_directories_ok)
  also have "\<dots> \<longleftrightarrow> (\<forall>p\<in>set (needed_directories cams). creatable fs p)"
    using makedirs_creatable [OF Inr] makedirs_Inr_creatable [OF Inr]
    by (auto simp: needed_directories_def)
  finally show ?thesis .
qed

lemma setup_directories_existing:
  assumes "set (needed_directories cams) \<subseteq> set (dirs fs)"
  shows "fst (setup_directories cams fs s) = None \<and> fst (snd (setup_directories cams fs s)) = fs"
proof -
  from assms have root: "makedirs SAVE_DIR fs = Inr fs"
    by (simp add: needed_directories_def makedirs_existing)
  from assms have "\<forall>cam\<in>set cams. path_join SAVE_DIR (name cam) \<in> set (dirs fs)"
    by (auto simp: needed_directories_def)
  from camera_directories_existing [OF this, of "logging INFO (MainSaveDirectory SAVE_DIR) s"]
  show ?thesis using root
    by (cases "camera_directories cams fs (logging INFO (MainSaveDirectory SAVE_DIR) s)")
       (auto simp: setup_directories_def)
qed

lemma setup_directories_provides:
  assumes "fst (setup_directories cams fs s) = None"
  shows "set (needed_directories cams) \<subseteq> set (dirs (fst (snd (setup_directories cams fs s))))"
proof (cases "makedirs SAVE_DIR fs")
  case (Inl e)
  with assms show ?thesis by (simp add: setup_directories_def)
next
  case (Inr fs1)
  let ?r = "camera_directories cams fs1 (logging INFO (MainSaveDirectory SAVE_DIR) s)"
  from assms Inr have ok: "fst ?r = None"
    by (cases ?r) (auto simp: setup_directories_def split: option.splits)
  from assms Inr have eq: "fst (snd (setup_directories cams fs s)) = fst (snd ?r)"
    by (cases ?r) (auto simp: setup_directories_def split: option.splits)
  show ?thesis
    unfolding eq camera_directories_dirs [OF ok]
    using makedirs_dirs [OF Inr] by (auto simp: needed_directories_def)
qed


lemma main_wait_Some: "main_wait sleeps s = Some s' \<Longrightarrow> shutdown_event s'"
  by (induction sleeps arbitrary: s) (auto simp: Let_def split: if_splits option.splits)

lemma main_wait_iff:
  "main_wait sleeps s \<noteq> None \<longleftrightarrow> shutdown_event s \<or> (\<exists>sig. Some sig \<in> set sleeps)"
proof (induction sleeps arbitrary: s)
  case Nil
  show ?case by simp
next
  case (Cons sg sleeps)
  show ?case
  proof (cases sg)
    case None
    then show ?thesis using Cons.IH [of "s\<lparr>monotonic := monotonic s + 1\<rparr>"]
      by (auto simp: Let_def)
  next
    case (Some sig)
    then show ?thesis
      using Cons.IH [of "signal_handler sig (s\<lparr>monotonic := monotonic s + 1\<rparr>)"]
      by (auto simp: Let_def)
  qed
qed

lemma main_failed:
  assumes "fst (setup_directories cams fs (logging INFO StartingScript (initial_state t0))) = Some st"
  shows "exit_status (main cams fs sched sleeps t0) = Some st"
    and "threads (main cams fs sched sleeps t0) = []"
  using assms
  by (cases "setup_directories cams fs (logging INFO StartingScript (initial_state t0))";
      simp add: main_def)+

lemma main_provisioned:
  assumes "fst (setup_directories cams fs (logging INFO StartingScript (initial_state t0))) = None"
  shows "threads (main cams fs sched sleeps t0) =
           map (\<lambda>(i, cam). (cam, fetch_and_save cam (sched i)
                  (snd (snd (setup_directories cams fs (logging INFO StartingScript (initial_state t0)))))))
             (enumerate 0 cams)"
    and "exit_status (main cams fs sched sleeps t0) =
           (if (\<exists>sig. Some sig \<in> set sleeps) \<and> list_all joined (threads (main cams fs sched sleeps t0))
            then Some 0 else None)"
    and "exit_status (main cams fs sched sleeps t0) = Some 0 \<longrightarrow>
           shutdown_event (main_state (main cams fs sched sleeps t0))"
proof -
  let ?s0 = "logging INFO StartingScript (initial_state t0)"
  obtain fs1 s1 where su: "setup_directories cams fs ?s0 = (None, fs1, s1)"
    using assms by (cases "setup_directories cams fs ?s0") auto
  have "shutdown_event (snd (snd (setup_directories cams fs ?s0))) = shutdown_event ?s0"
    by (rule setup_directories_flag)
  then have off: "\<not> shutdown_event s1"
    unfolding su by (simp add: initial_state_def)
  let ?ths = "map (\<lambda>(i, cam). (cam, fetch_and_save cam (sched i) s1)) (enumerate 0 cams)"
  let ?s2 = "logging INFO (StartedThreads (length ?ths)) s1"
  have w: "main_wait sleeps ?s2 \<noteq> None \<longleftrightarrow> (\<exists>sig. Some sig \<in> set sleeps)"
    using off main_wait_iff [of sleeps ?s2] by simp
  show t: "threads (main cams fs sched sleeps t0) =
           map (\<lambda>(i, cam). (cam, fetch_and_save cam (sched i)
                  (snd (snd (setup_directories cams fs ?s0)))))
             (enumerate 0 cams)"
    by (simp add: main_def su Let_def split: option.splits)
  show "exit_status (main cams fs sched sleeps t0) =
           (if (\<exists>sig. Some sig \<in> set sleeps) \<and> list_all joined (threads (main cams fs sched sleeps t0))
            then Some 0 else None)"
    unfolding t using w by (auto simp add: main_def su Let_def split: option.splits)
  show "exit_status (main cams fs sched sleeps t0) = Some 0 \<longrightarrow>
           shutdown_event (main_state (main cams fs sched sleeps t0))"
    by (auto simp add: main_def su Let_def split: option.splits if_splits dest: main_wait_Some)
qed


text \<open>
  Claim C8. The process exits with status 1 exactly when a directory it needs neither
  exists nor can be created, and then no poll loop has been started. It exits with status
  0 exactly when every needed directory exists or can be created, a termination signal is
  handled during the main thread's wait, and every poll loop has been joined; the shutdown
  flag is then set and one loop per registry entry was started. Provisioning is
  idempotent: directories that already exist are no error and leave the file system as it
  is, and after a provisioning that succeeded a second one succeeds and changes nothing.
\<close>

theorem exit_status_of_run:
  "(exit_status (main cams fs sched sleeps t0) = Some 1 \<longleftrightarrow>
      (\<exists>p\<in>set (needed_directories cams). \<not> creatable fs p))
   \<and> (exit_status (main cams fs sched sleeps t0) = Some 1 \<longrightarrow>
        threads (main cams fs sched sleeps t0) = [])
   \<and> (exit_status (main cams fs sched sleeps t0) = Some 0 \<longleftrightarrow>
        (\<forall>p\<in>set (needed_directories cams). creatable fs p)
        \<and> (\<exists>sig. Some sig \<in> set sleeps)
        \<and> list_all joined (threads (main cams fs sched sleeps t0)))
   \<and> (exit_status (main cams fs sched sleeps t0) = Some 0 \<longrightarrow>
        shutdown_event (main_state (main cams fs sched sleeps t0))
        \<and> map fst (threads (main cams fs sched sleeps t0)) = cams)
   \<and> (set (needed_directories cams) \<subseteq> set (dirs fs) \<longrightarrow>
        fst (setup_directories cams fs s) = None
        \<and> fst (snd (setup_directories cams fs s)) = fs)
   \<and> (fst (setup_directories cams fs s) = None \<longrightarrow>
        fst (setup_directories cams (fst (snd (setup_directories cams fs s))) s2) = None
        \<and> fst (snd (setup_directories cams (fst (snd (setup_directories cams fs s))) s2))
            = fst (snd (setup_directories cams fs s)))"
proof -
  let ?s0 = "logging INFO StartingScript (initial_state t0)"
  let ?M = "main cams fs sched sleeps t0"
  let ?ok = "\<forall>p\<in>set (needed_directories cams). creatable fs p"
  have ok: "fst (setup_directories cams fs ?s0) = None \<longleftrightarrow> ?ok"
    by (rule setup_directories_ok)
  have fail: "fst (setup_directories cams fs ?s0) = Some 1" if "\<not> ?ok"
    using that ok setup_directories_status [of cams fs ?s0] by auto
  have names: "map fst (map (\<lambda>(i, cam). (cam, f i cam)) (enumerate n cams)) = cams" for f n
    by (induction cams arbitrary: n) simp_all
  have 1: "exit_status ?M = Some 1 \<longleftrightarrow> (\<exists>p\<in>set (needed_directories cams). \<not> creatable fs p)"
  proof (cases ?ok)
    case True
    with ok main_provisioned(2) [of cams fs t0 sched sleeps] show ?thesis by auto
  next
    case False
    with main_failed(1) [OF fail] show ?thesis by auto
  qed
  have 2: "exit_status ?M = Some 1 \<longrightarrow> threads ?M = []"
  proof (cases ?ok)
    case True
    with 1 show ?thesis by auto
  next
    case False
    with main_failed(2) [OF fail] show ?thesis by auto
  qed
  have 3: "exit_status ?M = Some 0 \<longleftrightarrow>
        ?ok \<and> (\<exists>sig. Some sig \<in> set sleeps) \<and> list_all joined (threads ?M)"
  proof (cases ?ok)
    case True
    with ok main_provisioned(2) [of cams fs t0 sched sleeps] show ?thesis by auto
  next
    case False
    with main_failed(1) [OF fail] show ?thesis by auto
  qed
  have 4: "exit_status ?M = Some 0 \<longrightarrow>
        shutdown_event (main_state ?M) \<and> map fst (threads ?M) = cams"
  proof (cases ?ok)
    case True
    with ok have p: "fst (setup_directories cams fs ?s0) = None" by simp
    show ?thesis
      using main_provisioned(3) [OF p, of sched sleeps]
      unfolding main_provisioned(1) [OF p] names by simp
  next
    case False
    with 3 show ?thesis by simp
  qed
  have 5: "set (needed_directories cams) \<subseteq> set (dirs fs) \<longrightarrow>
        fst (setup_directories cams fs s) = None
        \<and> fst (snd (setup_directories cams fs s)) = fs"
    using setup_directories_existing by blast
  have 6: "fst (setup_directories cams fs s) = None \<longrightarrow>
        fst (setup_directories cams (fst (snd (setup_directories cams fs s))) s2) = None
        \<and> fst (snd (setup_directories cams (fst (snd (setup_directories cams fs s))) s2))
            = fst (snd (setup_directories cams fs s))"
    using setup_directories_existing [OF setup_directories_provides] by blast
  show ?thesis
    using 1 2 3 4 5 6 by (intro conjI) assumption+
qed


theorem exit_status_of_run_witness:
  "exit_status (main CAMERAS \<lparr>dirs = [''camera_images''], blocked = []\<rparr>
      (\<lambda>i. [(calm (Inr (reply 200 None)) 5)\<lparr>signal_in_wait := Some (SIGTERM, 10)\<rparr>])
      [None, Some SIGTERM] 0) = Some 0
   \<and> exit_status (main CAMERAS \<lparr>dirs = [], blocked = [''camera_images/Pool'']\<rparr>
      (\<lambda>i. []) [] 0) = Some 1
   \<and> threads (main CAMERAS \<lparr>dirs = [], blocked = [''camera_images/Pool'']\<rparr>
      (\<lambda>i. []) [] 0) = []"
proof -
  let ?sched = "\<lambda>i::nat. [(calm (Inr (reply 200 None)) 5)\<lparr>signal_in_wait := Some (SIGTERM, 10)\<rparr>]"
  let ?fs = "\<lparr>dirs = [''camera_images''], blocked = []\<rparr>"
  let ?bad = "\<lparr>dirs = [], blocked = [''camera_images/Pool'']\<rparr>"
  have nd: "needed_directories CAMERAS =
      [''camera_images'', ''camera_images/Front Door'', ''camera_images/Pool'']"
    by code_simp
  have ok: "\<forall>p\<in>set (needed_directories CAMERAS). creatable ?fs p"
    unfolding nd by (simp add: creatable_def)
  have sg: "\<exists>sig. Some sig \<in> set [None, Some SIGTERM]" by simp
  have jn: "list_all joined (threads (main CAMERAS ?fs ?sched [None, Some SIGTERM] 0))"
    by code_simp
  have no: "\<exists>p\<in>set (needed_directories CAMERAS). \<not> creatable ?bad p"
    unfolding nd by (simp add: creatable_def)
  note good = exit_status_of_run [of CAMERAS ?fs ?sched "[None, Some SIGTERM]" 0 "initial_state 0"
    "initial_state 0"]
  note fail = exit_status_of_run [of CAMERAS ?bad "\<lambda>i. []" "[]" 0 "initial_state 0"
    "initial_state 0"]
  from good ok sg jn
  have 1: "exit_status (main CAMERAS ?fs ?sched [None, Some SIGTERM] 0) = Some 0" by blast
  from fail no
  have 2: "exit_status (main CAMERAS ?bad (\<lambda>i. []) [] 0) = Some 1" by blast
  with fail have 3: "threads (main CAMERAS ?bad (\<lambda>i. []) [] 0) = []" by blast
  from 1 2 3 show ?thesis by blast
qed

text \<open>
  Claim C5, as amended. The source has no registry validation. Whenever every needed
  directory exists or can be created, provisioning does not exit and one poll loop is
  started for each registry entry, in order, whether or not names repeat; two cameras of
  the same name are given the same directory and the same image path.
\<close>

theorem duplicate_names_started_not_rejected:
  "(\<forall>p\<in>set (needed_directories cams). creatable fs p) \<Longrightarrow>
     exit_status (main cams fs sched sleeps t0) \<noteq> Some 1
     \<and> map fst (threads (main cams fs sched sleeps t0)) = cams
     \<and> (name c1 = name c2 \<longrightarrow>
          path_join SAVE_DIR (name c1) = path_join SAVE_DIR (name c2)
          \<and> image_path c1 t ext = image_path c2 t ext)"
proof -
  let ?s0 = "logging INFO StartingScript (initial_state t0)"
  assume "\<forall>p\<in>set (needed_directories cams). creatable fs p"
  then have p: "fst (setup_directories cams fs ?s0) = None"
    by (simp add: setup_directories_ok)
  have names: "map fst (map (\<lambda>(i, cam). (cam, f i cam)) (enumerate n cams)) = cams" for f n
    by (induction cams arbitrary: n) simp_all
  have 1: "exit_status (main cams fs sched sleeps t0) \<noteq> Some 1"
    unfolding main_provisioned(2) [OF p] by simp
  have 2: "map fst (threads (main cams fs sched sleeps t0)) = cams"
    unfolding main_provisioned(1) [OF p] names ..
  show ?thesis using 1 2 by (simp add: image_path_def)
qed

theorem duplicate_names_started_not_rejected_witness:
  "exit_status (main twins \<lparr>dirs = [], blocked = []\<rparr> (\<lambda>i. []) [] 0) \<noteq> Some 1
   \<and> map fst (threads (main twins \<lparr>dirs = [], blocked = []\<rparr> (\<lambda>i. []) [] 0)) = twins"
proof -
  have ok: "\<forall>p\<in>set (needed_directories twins). creatable \<lparr>dirs = [], blocked = []\<rparr> p"
    by (simp add: creatable_def)
  from duplicate_names_started_not_rejected [OF ok, of "\<lambda>i. []" "[]" 0 pool pool stamp "[]"]
  show ?thesis by blast
qed

text \<open>
  The claim as stated has such a registry rejected before polling starts. With two
  cameras named \<open>Pool\<close> the process starts two loops, each writes the same file, and the
  process exits with status 0.
\<close>

theorem duplicate_names_rejected_counterexample:
  "\<not> distinct (map name twins)
   \<and> exit_status (main twins \<lparr>dirs = [], blocked = []\<rparr>
        (\<lambda>i. [(calm (Inr (reply 200 None)) 5)\<lparr>signal_in_wait := Some (SIGTERM, 10)\<rparr>])
        [Some SIGTERM] 0) = Some 0
   \<and> map (\<lambda>th. (name (fst th), files_written (events (snd (snd th)))))
        (threads (main twins \<lparr>dirs = [], blocked = []\<rparr>
          (\<lambda>i. [(calm (Inr (reply 200 None)) 5)\<lparr>signal_in_wait := Some (SIGTERM, 10)\<rparr>])
          [Some SIGTERM] 0))
       = [(''Pool'', [(''camera_images/Pool/Pool_20240102_030405.jpg'', ''bytes'')]),
          (''Pool'', [(''camera_images/Pool/Pool_20240102_030405.jpg'', ''bytes'')])]"
  by code_simp


section \<open>The timelapse encoder\<close>

lemma frames_written_simps [simp]:
  "frames_written [] = []"
  "frames_written (xs @ ys) = frames_written xs @ frames_written ys"
  "frames_written (Print l # xs) = frames_written xs"
  "frames_written (NewVideoWriter out fps sz # xs) = frames_written xs"
  "frames_written (WriteFrame fr # xs) = fr # frames_written xs"
  "frames_written (Release # xs) = frames_written xs"
  "frames_written (Uncaught e # xs) = frames_written xs"
  by (simp_all add: frames_written_def)

lemma encoding_started_simps [simp]:
  "encoding_started [] = False"
  "encoding_started (xs @ ys) = (encoding_started xs \<or> encoding_started ys)"
  "encoding_started (Print l # xs) = encoding_started xs"
  "encoding_started (NewVideoWriter out fps sz # xs) = True"
  "encoding_started (WriteFrame fr # xs) = encoding_started xs"
  "encoding_started (Release # xs) = encoding_started xs"
  "encoding_started (Uncaught e # xs) = encoding_started xs"
  by (simp_all add: encoding_started_def)


lemma write_frames_no_release:
  "Release \<notin> set (write_frames env folder n i names)"
  by (induction names arbitrary: i) (simp_all split: imread_result.splits)



lemma create_timelapse_no_folder:
  "\<not> isdir env folder \<Longrightarrow>
     create_timelapse natsorted env folder out fps ext =
       [Print TimelapseStarted, Print (ImageFolder folder), Print (OutputFile out), Print (Fps fps),
        Print (ImageExtension ext), Print (FolderNotFound folder)]"
  by (simp add: create_timelapse_def)





lemma video_produced_simps [simp]:
  "video_produced [] = False"
  "video_produced (xs @ ys) = (video_produced xs \<or> video_produced ys)"
  "video_produced (Print l # xs) = video_produced xs"
  "video_produced (NewVideoWriter out fps sz # xs) = video_produced xs"
  "video_produced (WriteFrame fr # xs) = video_produced xs"
  "video_produced (Release # xs) = True"
  "video_produced (Uncaught e # xs) = video_produced xs"
  by (auto simp: video_produced_def)








end
